theory Spec2Isabelle
  imports Main
begin

section \<open>The UNC image reader of pyunc: a shallow embedding\<close>

text \<open>
  The definitions follow \<^verbatim>\<open>src/pyunc/__init__.py\<close>: the class \<^verbatim>\<open>UNCFile\<close>, its
  reader \<^verbatim>\<open>from_file\<close> with the ten stages it calls, the property \<^verbatim>\<open>num_echoes\<close> and the
  two partition operations \<^verbatim>\<open>split_echoes\<close> and \<^verbatim>\<open>split_volumes\<close>.

  Every exception of the Python is a value of \<open>error\<close>; a function that can raise returns
  \<open>error + 'a\<close> with \<open>Inl\<close> for the exception.
\<close>

subsection \<open>Exceptions\<close>

datatype error =
    StructError          \<comment> \<open>\<^verbatim>\<open>struct.error\<close>: the buffer has not the size of the format\<close>
  | UnicodeDecodeError   \<comment> \<open>\<^verbatim>\<open>bytes.decode('ascii')\<close> on a byte above 127\<close>
  | OSError              \<comment> \<open>\<^verbatim>\<open>f.seek\<close> to a negative offset\<close>
  | IndexError           \<comment> \<open>list, tuple or array index out of range\<close>
  | KeyError             \<comment> \<open>\<^verbatim>\<open>d[k]\<close> on a missing key\<close>
  | ValueError           \<comment> \<open>numpy: shapes that do not fit; \<^verbatim>\<open>f.read\<close> of a length below -1\<close>
  | OverflowError        \<comment> \<open>numpy: a count that does not fit a machine integer\<close>
  | ZeroDivisionError
  | CollaboratorError    \<comment> \<open>whatever a header parser of \<^verbatim>\<open>header.py\<close> may raise\<close>

definition ebind :: "error + 'a \<Rightarrow> ('a \<Rightarrow> error + 'b) \<Rightarrow> error + 'b" where
  "ebind m k = (case m of Inl e \<Rightarrow> Inl e | Inr x \<Rightarrow> k x)"

subsection \<open>Bytes, files and \<^verbatim>\<open>struct.unpack\<close>\<close>

text \<open>
  A byte is a \<open>char\<close> (Isabelle's characters are the 256 bytes), a byte string and a decoded
  ASCII string are both \<open>char list\<close>. An open file is its content and the read position.
\<close>

type_synonym bytes = "char list"

record pyfile =
  content :: bytes
  pos :: nat

definition NUL :: char where
  "NUL = CHR 0x00"

text \<open>\<^verbatim>\<open>f.seek(off, os.SEEK_SET)\<close>: a negative offset raises, one beyond the end is allowed.\<close>

definition seek_set :: "pyfile \<Rightarrow> int \<Rightarrow> error + pyfile" where
  "seek_set f off = (if off < 0 then Inl OSError else Inr (f\<lparr>pos := nat off\<rparr>))"

text \<open>\<^verbatim>\<open>f.seek(0, os.SEEK_END)\<close> and \<^verbatim>\<open>f.tell()\<close>.\<close>

definition seek_end :: "pyfile \<Rightarrow> pyfile" where
  "seek_end f = f\<lparr>pos := length (content f)\<rparr>"

definition tell :: "pyfile \<Rightarrow> int" where
  "tell f = int (pos f)"

text \<open>
  \<^verbatim>\<open>f.read(n)\<close>: at most \<open>n\<close> bytes from the position, fewer at the end of the file and none
  beyond it; \<open>-1\<close> reads to the end; a smaller length raises.
\<close>

definition read :: "pyfile \<Rightarrow> int \<Rightarrow> error + (bytes \<times> pyfile)" where
  "read f n =
     (if n < -1 then Inl ValueError
      else let rest = drop (pos f) (content f);
               b = (if n = -1 then rest else take (nat n) rest)
           in Inr (b, f\<lparr>pos := pos f + length b\<rparr>))"

text \<open>Big-endian integers: unsigned, and two's complement on the width of the buffer.\<close>

definition be_uint :: "bytes \<Rightarrow> nat" where
  "be_uint bs = foldl (\<lambda>a c. a * 256 + of_char c) 0 bs"

definition be_sint :: "bytes \<Rightarrow> int" where
  "be_sint bs =
     (let u = be_uint bs; w = 8 * length bs
      in if u < 2 ^ (w - 1) then int u else int u - 2 ^ w)"

text \<open>\<^verbatim>\<open>struct.unpack('>Ni', buf)\<close>: \<open>N\<close> big-endian signed 32-bit integers from exactly \<open>4N\<close> bytes.\<close>

definition unpack_i :: "nat \<Rightarrow> bytes \<Rightarrow> error + int list" where
  "unpack_i n buf =
     (if length buf \<noteq> 4 * n then Inl StructError
      else Inr (map (\<lambda>k. be_sint (take 4 (drop (4 * k) buf))) [0..<n]))"

text \<open>\<^verbatim>\<open>struct.unpack('>Ns', buf)[0]\<close>: the \<open>N\<close> bytes themselves, from exactly \<open>N\<close> bytes.\<close>

definition unpack_s :: "nat \<Rightarrow> bytes \<Rightarrow> error + bytes" where
  "unpack_s n buf = (if length buf \<noteq> n then Inl StructError else Inr buf)"

text \<open>\<^verbatim>\<open>b.decode('ascii')\<close>.\<close>

definition decode_ascii :: "bytes \<Rightarrow> error + string" where
  "decode_ascii b =
     (if list_all (\<lambda>c. (of_char c :: nat) < 128) b then Inr b else Inl UnicodeDecodeError)"

text \<open>\<^verbatim>\<open>s.split(c)\<close>: the pieces between the separators, empty pieces included.\<close>

fun split_chr :: "char \<Rightarrow> string \<Rightarrow> string list" where
  "split_chr c [] = [[]]"
| "split_chr c (x # xs) =
     (if x = c then [] # split_chr c xs
      else (case split_chr c xs of [] \<Rightarrow> [[x]] | w # ws \<Rightarrow> (x # w) # ws))"

text \<open>\<^verbatim>\<open>s.split(c, maxsplit)\<close>: at most \<open>maxsplit\<close> cuts, the rest of the string is the last piece.\<close>

fun split_max :: "char \<Rightarrow> nat \<Rightarrow> string \<Rightarrow> string list" where
  "split_max c 0 s = [s]"
| "split_max c (Suc m) s =
     (case dropWhile (\<lambda>x. x \<noteq> c) s of
        [] \<Rightarrow> [s]
      | _ # rest \<Rightarrow> takeWhile (\<lambda>x. x \<noteq> c) s # split_max c m rest)"

text \<open>\<^verbatim>\<open>xs[i]\<close> for an index that is not negative.\<close>

definition py_index :: "'a list \<Rightarrow> nat \<Rightarrow> error + 'a" where
  "py_index xs i = (if i < length xs then Inr (xs ! i) else Inl IndexError)"

text \<open>\<^verbatim>\<open>xs[0:stop]\<close>: a negative \<open>stop\<close> counts from the end, and the bounds are clamped.\<close>

definition py_slice_to :: "'a list \<Rightarrow> int \<Rightarrow> 'a list" where
  "py_slice_to xs stop = take (nat (if stop < 0 then int (length xs) + stop else stop)) xs"

text \<open>\<^verbatim>\<open>xs[0::step]\<close> for a positive step: the elements at the indices \<open>0, step, 2 step, ...\<close>\<close>

fun py_slice_step :: "nat \<Rightarrow> 'a list \<Rightarrow> 'a list" where
  "py_slice_step step [] = []"
| "py_slice_step step (x # xs) = x # py_slice_step step (drop (step - 1) xs)"

text \<open>The address table's slots.\<close>

definition MAXMIN :: nat where "MAXMIN = 0"
definition HISTO :: nat where "HISTO = 1"
definition TITLE :: nat where "TITLE = 2"
definition PIXEL_FORMAT :: nat where "PIXEL_FORMAT = 3"
definition DIMC :: nat where "DIMC = 4"
definition DIMV :: nat where "DIMV = 5"
definition PIXELS :: nat where "PIXELS = 6"
definition INFO :: nat where "INFO = 7"
definition VERSION :: nat where "VERSION = 8"

subsection \<open>numpy arrays\<close>

text \<open>
  An array is its element type, its shape and its elements in row-major order (the first
  axis slowest). Every array of this program holds 16-bit samples or copies of them, and
  \<^verbatim>\<open>float64\<close> represents each of those integers exactly, so an element is modelled by its
  numeric value and the element type by a tag. Memory limits are not modelled.
\<close>

datatype dtype = Int16BE | Float64

record ndarray =
  dtype :: dtype
  shape :: "nat list"
  data :: "int list"

text \<open>
  \<^verbatim>\<open>np.fromfile(f, dtype='>i2', count=count)\<close>: the samples from the position on; a negative
  count means all of them, and a count larger than what the file holds returns the shorter
  array without raising.
\<close>

definition fromfile :: "pyfile \<Rightarrow> int \<Rightarrow> error + int list" where
  "fromfile f count =
     (if count < - (2 ^ 63) \<or> 2 ^ 63 \<le> count then Inl OverflowError
      else let rest = drop (pos f) (content f);
               avail = length rest div 2;
               n = (if count < 0 then avail else min (nat count) avail)
           in Inr (map (\<lambda>k. be_sint (take 2 (drop (2 * k) rest))) [0..<n]))"

text \<open>
  \<^verbatim>\<open>np.reshape(lin, dims)\<close> of a one-dimensional array: one negative entry of \<open>dims\<close> is
  inferred from the size, two are refused, and without one the sizes must agree.
\<close>

definition reshape :: "int list \<Rightarrow> int list \<Rightarrow> error + ndarray" where
  "reshape lin dims =
     (let unknown = filter (\<lambda>d. d < 0) dims;
          known = prod_list (map nat (filter (\<lambda>d. 0 \<le> d) dims));
          size = length lin
      in if 1 < length unknown then Inl ValueError
         else if length unknown = 1 then
           (if known = 0 \<or> size mod known \<noteq> 0 then Inl ValueError
            else Inr \<lparr>dtype = Int16BE,
                      shape = map (\<lambda>d. if d < 0 then size div known else nat d) dims,
                      data = lin\<rparr>)
         else if size = known then Inr \<lparr>dtype = Int16BE, shape = map nat dims, data = lin\<rparr>
         else Inl ValueError)"

text \<open>\<^verbatim>\<open>a.shape[i]\<close>.\<close>

definition shape_at :: "ndarray \<Rightarrow> nat \<Rightarrow> error + nat" where
  "shape_at a i = py_index (shape a) i"

text \<open>
  \<^verbatim>\<open>a[start:stop, :, :]\<close> for bounds that are not negative: the rows of the first axis in
  the clamped range, every other axis whole. An array of fewer than three axes has too many
  indices.
\<close>

definition take_rows :: "ndarray \<Rightarrow> nat \<Rightarrow> nat \<Rightarrow> error + ndarray" where
  "take_rows a start stop =
     (case shape a of
        [] \<Rightarrow> Inl IndexError
      | s0 # rest \<Rightarrow>
          if length rest < 2 then Inl IndexError
          else let lo = min start s0;
                   hi = max lo (min stop s0);
                   row = prod_list rest
               in Inr \<lparr>dtype = dtype a,
                        shape = (hi - lo) # rest,
                        data = take ((hi - lo) * row) (drop (lo * row) (data a))\<rparr>)"

text \<open>
  Assignment \<^verbatim>\<open>dst[...] = src\<close> broadcasts the source to the shape of the destination: a
  source of more axes first loses leading axes of extent 1, a source of fewer axes gains
  them, and then every extent equals the destination's or is 1.
\<close>

fun strip_ones :: "nat \<Rightarrow> nat list \<Rightarrow> nat list" where
  "strip_ones k [] = []"
| "strip_ones k (d # ds) = (if k < length (d # ds) \<and> d = 1 then strip_ones k ds else d # ds)"

fun bcast_data :: "nat list \<Rightarrow> nat list \<Rightarrow> 'a list \<Rightarrow> 'a list" where
  "bcast_data (s # ss) (d # ds) xs =
     (if s = d
      then concat (map (\<lambda>i. bcast_data ss ds (take (prod_list ss) (drop (i * prod_list ss) xs)))
                       [0..<d])
      else concat (replicate d (bcast_data ss ds xs)))"
| "bcast_data ss ds xs = xs"

definition assign_block :: "nat list \<Rightarrow> ndarray \<Rightarrow> error + int list" where
  "assign_block dst src =
     (let shp = strip_ones (length dst) (shape src)
      in if length dst < length shp then Inl ValueError
         else let padded = replicate (length dst - length shp) 1 @ shp
              in if list_all2 (\<lambda>s d. s = d \<or> s = 1) padded dst
                 then Inr (bcast_data padded dst (data src))
                 else Inl ValueError)"

text \<open>\<^verbatim>\<open>np.ndarray(dims)\<close>: a negative extent is refused. The content is written before it is read.\<close>

definition ndarray_alloc :: "int list \<Rightarrow> error + nat list" where
  "ndarray_alloc dims = (if list_all (\<lambda>d. 0 \<le> d) dims then Inr (map nat dims) else Inl ValueError)"

text \<open>
  \<^verbatim>\<open>int(a / b)\<close> on integers: the quotient rounded towards zero (the float division is
  exact enough below \<open>2^53\<close>).
\<close>

definition int_truediv :: "int \<Rightarrow> int \<Rightarrow> error + int" where
  "int_truediv a b =
     (if b = 0 then Inl ZeroDivisionError else Inr (sgn a * sgn b * (\<bar>a\<bar> div \<bar>b\<bar>)))"

subsection \<open>The objects\<close>

text \<open>
  \<^verbatim>\<open>header.py\<close> is not part of the sources at hand. What the reader uses of a
  \<^verbatim>\<open>SliceHeader\<close> is its \<^verbatim>\<open>slice_location\<close>, of any linearly ordered type, and its
  \<^verbatim>\<open>dicom_header\<close>, a dictionary from strings to values; a value is an integer or a string,
  and Python's \<^verbatim>\<open>==\<close> on them is equality here. The two constructors \<^verbatim>\<open>UNCHeader\<close> and
  \<^verbatim>\<open>SliceHeader\<close> are parameters of the reader, and they may raise.
\<close>

datatype pyval = PyInt int | PyStr string

record 'l slice_header =
  slice_location :: 'l
  dicom_header :: "string \<rightharpoonup> pyval"

text \<open>The attributes that only \<^verbatim>\<open>from_file\<close> sets.\<close>

record file_attrs =
  addresses :: "int list"
  title :: string
  valid_maxmin :: bool
  min_val :: int
  max_val :: int
  valid_histogram :: bool
  histogram :: "int list"
  pixel_format :: int
  pixel_count :: int
  info :: "string list"

text \<open>
  A \<^verbatim>\<open>UNCFile\<close>: the five attributes every object has, and those of \<open>file_attrs\<close>, which the
  objects built by \<^verbatim>\<open>split_echoes\<close> and \<^verbatim>\<open>split_volumes\<close> lack.
\<close>

record ('h, 'l) UNCFile =
  header :: 'h
  dimc :: int
  dimv :: "int list"
  slice_info :: "'l slice_header list"
  pixels :: ndarray
  file_attrs :: "file_attrs option"

subsection \<open>The stages of \<^verbatim>\<open>from_file\<close>\<close>

text \<open>
  A stage seeks, reads and unpacks; it returns what the Python stores in the object, and
  the file with its new position.
\<close>

definition read_addresses :: "pyfile \<Rightarrow> error + (int list \<times> pyfile)" where
  "read_addresses f =
     ebind (seek_set f 0) (\<lambda>f1.
     ebind (read f1 36) (\<lambda>(b, f2).
     ebind (unpack_i 9 b) (\<lambda>a. Inr (a, f2))))"

definition read_title :: "pyfile \<Rightarrow> int list \<Rightarrow> error + (string \<times> pyfile)" where
  "read_title f addrs =
     ebind (seek_set f (addrs ! TITLE)) (\<lambda>f1.
     ebind (read f1 81) (\<lambda>(b, f2).
     ebind (unpack_s 81 b) (\<lambda>raw.
     ebind (decode_ascii raw) (\<lambda>title_field.
     ebind (py_index (split_max NUL 1 title_field) 0) (\<lambda>t. Inr (t, f2))))))"

definition read_maxmin :: "pyfile \<Rightarrow> int list \<Rightarrow> error + ((bool \<times> int \<times> int) \<times> pyfile)" where
  "read_maxmin f addrs =
     ebind (seek_set f (addrs ! MAXMIN)) (\<lambda>f1.
     ebind (read f1 4) (\<lambda>(b, f2).
     ebind (unpack_i 1 b) (\<lambda>v.
     ebind (read f2 8) (\<lambda>(b', f3).
     ebind (unpack_i 2 b') (\<lambda>maxmin. Inr ((v ! 0 = 1, maxmin ! 0, maxmin ! 1), f3))))))"

definition read_histogram :: "pyfile \<Rightarrow> int list \<Rightarrow> error + ((bool \<times> int list) \<times> pyfile)" where
  "read_histogram f addrs =
     ebind (seek_set f (addrs ! HISTO)) (\<lambda>f1.
     ebind (read f1 4) (\<lambda>(b, f2).
     ebind (unpack_i 1 b) (\<lambda>v.
     ebind (read f2 4096) (\<lambda>(b', f3).
     ebind (unpack_i 1024 b') (\<lambda>h. Inr ((v ! 0 = 1, h), f3))))))"

definition read_pixel_format :: "pyfile \<Rightarrow> int list \<Rightarrow> error + (int \<times> pyfile)" where
  "read_pixel_format f addrs =
     ebind (seek_set f (addrs ! PIXEL_FORMAT)) (\<lambda>f1.
     ebind (read f1 4) (\<lambda>(b, f2).
     ebind (unpack_i 1 b) (\<lambda>v. Inr (v ! 0, f2))))"

definition read_dimc :: "pyfile \<Rightarrow> int list \<Rightarrow> error + (int \<times> pyfile)" where
  "read_dimc f addrs =
     ebind (seek_set f (addrs ! DIMC)) (\<lambda>f1.
     ebind (read f1 4) (\<lambda>(b, f2).
     ebind (unpack_i 1 b) (\<lambda>v. Inr (v ! 0, f2))))"

definition read_dimv :: "pyfile \<Rightarrow> int list \<Rightarrow> error + (int list \<times> pyfile)" where
  "read_dimv f addrs =
     ebind (seek_set f (addrs ! DIMV)) (\<lambda>f1.
     ebind (read f1 40) (\<lambda>(b, f2).
     ebind (unpack_i 10 b) (\<lambda>v. Inr (v, f2))))"

text \<open>
  \<^verbatim>\<open>_calculate_pixel_count\<close>: the loop over \<^verbatim>\<open>range(self.dimc)\<close> multiplies \<^verbatim>\<open>self.dimv[i]\<close>
  into the count; the index raises beyond the tuple.
\<close>

fun mult_loop :: "int list \<Rightarrow> nat list \<Rightarrow> int \<Rightarrow> error + int" where
  "mult_loop dv [] acc = Inr acc"
| "mult_loop dv (i # is) acc = ebind (py_index dv i) (\<lambda>d. mult_loop dv is (acc * d))"

definition calculate_pixel_count :: "int \<Rightarrow> int list \<Rightarrow> error + int" where
  "calculate_pixel_count dc dv = mult_loop dv [0..<nat dc] 1"

text \<open>
  \<^verbatim>\<open>_read_info\<close>. The loop over \<^verbatim>\<open>range(1, self.dimv[0] + 1)\<close> appends
  \<^verbatim>\<open>SliceHeader(self.info[i])\<close>; the sort by key is stable, as \<open>sort_key\<close> is.
\<close>

fun slice_loop ::
  "(string \<Rightarrow> error + 'l slice_header) \<Rightarrow> string list \<Rightarrow> nat list \<Rightarrow> 'l slice_header list
     \<Rightarrow> error + 'l slice_header list" where
  "slice_loop SliceHeader recs [] acc = Inr acc"
| "slice_loop SliceHeader recs (i # is) acc =
     ebind (py_index recs i) (\<lambda>r.
     ebind (SliceHeader r) (\<lambda>h. slice_loop SliceHeader recs is (acc @ [h])))"

definition info_records :: "string \<Rightarrow> string list" where
  "info_records info_field = filter (\<lambda>i. i \<noteq> []) (split_chr NUL info_field)"

definition read_info ::
  "(string \<Rightarrow> error + 'h) \<Rightarrow> (string \<Rightarrow> error + ('l::linorder) slice_header) \<Rightarrow> pyfile
     \<Rightarrow> int list \<Rightarrow> int list
     \<Rightarrow> error + ((string list \<times> 'h \<times> 'l slice_header list) \<times> pyfile)" where
  "read_info UNCHeader SliceHeader f addrs dv =
     (let f1 = seek_end f;
          cnt = tell f1;
          info_len = cnt - addrs ! INFO
      in ebind (seek_set f1 (addrs ! INFO)) (\<lambda>f2.
         ebind (read f2 info_len) (\<lambda>(b, f3).
         ebind (decode_ascii b) (\<lambda>info_field.
         let recs = info_records info_field
         in ebind (py_index recs 0) (\<lambda>r0.
            ebind (UNCHeader r0) (\<lambda>hdr.
            ebind (slice_loop SliceHeader recs [1..<nat (dv ! 0 + 1)] []) (\<lambda>sl.
            Inr ((recs, hdr, sort_key slice_location sl), f3))))))))"

definition read_pixels :: "pyfile \<Rightarrow> int list \<Rightarrow> int \<Rightarrow> int \<Rightarrow> int list \<Rightarrow> error + (ndarray \<times> pyfile)" where
  "read_pixels f addrs pc dc dv =
     ebind (seek_set f (addrs ! PIXELS)) (\<lambda>f1.
     ebind (fromfile f1 pc) (\<lambda>lin_pixels.
     ebind (reshape lin_pixels (py_slice_to dv dc)) (\<lambda>px.
     Inr (px, f1\<lparr>pos := pos f1 + 2 * length lin_pixels\<rparr>))))"

text \<open>\<^verbatim>\<open>from_file\<close>: the ten stages in order; the object is returned after the last one.\<close>

definition from_file ::
  "(string \<Rightarrow> error + 'h) \<Rightarrow> (string \<Rightarrow> error + ('l::linorder) slice_header) \<Rightarrow> pyfile
     \<Rightarrow> error + ('h, 'l) UNCFile" where
  "from_file UNCHeader SliceHeader f =
     ebind (read_addresses f) (\<lambda>(addrs, f1).
     ebind (read_title f1 addrs) (\<lambda>(t, f2).
     ebind (read_maxmin f2 addrs) (\<lambda>((vm, mn, mx), f3).
     ebind (read_histogram f3 addrs) (\<lambda>((vh, h), f4).
     ebind (read_pixel_format f4 addrs) (\<lambda>(pf, f5).
     ebind (read_dimc f5 addrs) (\<lambda>(dc, f6).
     ebind (read_dimv f6 addrs) (\<lambda>(dv, f7).
     ebind (calculate_pixel_count dc dv) (\<lambda>pc.
     ebind (read_info UNCHeader SliceHeader f7 addrs dv) (\<lambda>((recs, hdr, sl), f8).
     ebind (read_pixels f8 addrs pc dc dv) (\<lambda>(px, f9).
     Inr \<lparr>header = hdr, dimc = dc, dimv = dv, slice_info = sl, pixels = px,
          file_attrs = Some \<lparr>addresses = addrs, title = t, valid_maxmin = vm, min_val = mn,
            max_val = mx, valid_histogram = vh, histogram = h, pixel_format = pf,
            pixel_count = pc, info = recs\<rparr>\<rparr>))))))))))"

text \<open>\<^verbatim>\<open>from_path\<close>: the file is opened at position 0.\<close>

definition from_path ::
  "(string \<Rightarrow> error + 'h) \<Rightarrow> (string \<Rightarrow> error + ('l::linorder) slice_header) \<Rightarrow> bytes
     \<Rightarrow> error + ('h, 'l) UNCFile" where
  "from_path UNCHeader SliceHeader bs = from_file UNCHeader SliceHeader \<lparr>content = bs, pos = 0\<rparr>"

subsection \<open>\<^verbatim>\<open>num_echoes\<close> and the partitions\<close>

text \<open>\<^verbatim>\<open>s.dicom_header.get('Echo Number', 0)\<close>.\<close>

definition echo_or_zero :: "'l slice_header \<Rightarrow> pyval" where
  "echo_or_zero s = (case dicom_header s ''Echo Number'' of None \<Rightarrow> PyInt 0 | Some v \<Rightarrow> v)"

text \<open>\<^verbatim>\<open>len(set([...]))\<close>: the length of the list without its repetitions.\<close>

definition num_echoes :: "('h, 'l) UNCFile \<Rightarrow> nat" where
  "num_echoes u = length (remdups (map echo_or_zero (slice_info u)))"

text \<open>
  The first loop of both partitions: block \<open>i\<close> of \<^verbatim>\<open>split_pixels\<close> is assigned the rows
  \<^verbatim>\<open>[per * i, per * i + per)\<close> of the pixels. The array \<^verbatim>\<open>split_pixels\<close> is the list of
  its blocks along the first axis; every block is written.
\<close>

fun copy_loop :: "ndarray \<Rightarrow> nat \<Rightarrow> nat list \<Rightarrow> nat list \<Rightarrow> int list list
    \<Rightarrow> error + int list list" where
  "copy_loop px per dst [] acc = Inr acc"
| "copy_loop px per dst (i # is) acc =
     ebind (take_rows px (per * i) (per * i + per)) (\<lambda>src.
     ebind (assign_block dst src) (\<lambda>blk. copy_loop px per dst is (acc @ [blk])))"

text \<open>
  \<^verbatim>\<open>[s for s in self.slice_info if s.dicom_header['Echo Number'] == k]\<close>: the subscript
  raises on a record without the key.
\<close>

fun filter_echo :: "'l slice_header list \<Rightarrow> int \<Rightarrow> error + 'l slice_header list" where
  "filter_echo [] k = Inr []"
| "filter_echo (s # ss) k =
     (case dicom_header s ''Echo Number'' of
        None \<Rightarrow> Inl KeyError
      | Some v \<Rightarrow> ebind (filter_echo ss k) (\<lambda>r. Inr (if v = PyInt k then s # r else r)))"

text \<open>\<^verbatim>\<open>split_pixels[n, :, :, :]\<close>: block \<open>n\<close>, of the shape of a block.\<close>

definition block_view :: "nat list \<Rightarrow> int list list \<Rightarrow> nat \<Rightarrow> ndarray" where
  "block_view dst blocks n = \<lparr>dtype = Float64, shape = dst, data = blocks ! n\<rparr>"

fun build_echoes :: "('h, 'l) UNCFile \<Rightarrow> nat list \<Rightarrow> int list list \<Rightarrow> nat list
    \<Rightarrow> error + ('h, 'l) UNCFile list" where
  "build_echoes u dst blocks [] = Inr []"
| "build_echoes u dst blocks (n # ns) =
     ebind (filter_echo (slice_info u) (int n + 1)) (\<lambda>si.
     ebind (build_echoes u dst blocks ns) (\<lambda>rest.
     Inr (\<lparr>header = header u, dimc = dimc u, dimv = dimv u, slice_info = si,
           pixels = block_view dst blocks n, file_attrs = None\<rparr> # rest)))"

definition split_echoes :: "('h, 'l) UNCFile \<Rightarrow> error + ('h, 'l) UNCFile list" where
  "split_echoes u =
     ebind (shape_at (pixels u) 0) (\<lambda>s0.
     ebind (int_truediv (int s0) (int (num_echoes u))) (\<lambda>q.
     let slices_per_echo = nat q
     in ebind (shape_at (pixels u) 1) (\<lambda>s1.
        ebind (shape_at (pixels u) 2) (\<lambda>s2.
        ebind (ndarray_alloc [int (num_echoes u), q, int s1, int s2]) (\<lambda>full.
        ebind (copy_loop (pixels u) slices_per_echo (tl full) [0..<num_echoes u] []) (\<lambda>blocks.
        build_echoes u (tl full) blocks [0..<num_echoes u]))))))"

fun build_volumes :: "('h, 'l) UNCFile \<Rightarrow> nat \<Rightarrow> nat list \<Rightarrow> int list list \<Rightarrow> nat list
    \<Rightarrow> ('h, 'l) UNCFile list" where
  "build_volumes u n_vols dst blocks [] = []"
| "build_volumes u n_vols dst blocks (n # ns) =
     \<lparr>header = header u, dimc = dimc u, dimv = dimv u,
      slice_info = py_slice_step n_vols (slice_info u),
      pixels = block_view dst blocks n, file_attrs = None\<rparr>
     # build_volumes u n_vols dst blocks ns"

definition split_volumes :: "('h, 'l) UNCFile \<Rightarrow> int \<Rightarrow> error + ('h, 'l) UNCFile list" where
  "split_volumes u n_vols =
     ebind (shape_at (pixels u) 0) (\<lambda>s0.
     ebind (int_truediv (int s0) n_vols) (\<lambda>q.
     let slices_per_vol = nat q
     in ebind (shape_at (pixels u) 1) (\<lambda>s1.
        ebind (shape_at (pixels u) 2) (\<lambda>s2.
        ebind (ndarray_alloc [n_vols, q, int s1, int s2]) (\<lambda>full.
        ebind (copy_loop (pixels u) slices_per_vol (tl full) [0..<nat n_vols] []) (\<lambda>blocks.
        Inr (build_volumes u (nat n_vols) (tl full) blocks [0..<nat n_vols])))))))"

subsection \<open>Auxiliary definitions for the statements\<close>

text \<open>
  The first eight stages of \<^verbatim>\<open>from_file\<close>, those before \<^verbatim>\<open>_read_info\<close>: what they store
  (addresses, title, max/min, histogram, pixel format, \<^verbatim>\<open>dimc\<close>, \<^verbatim>\<open>dimv\<close>, pixel count) and
  the file. A statement about a decode that fails later names these values through it.
\<close>

type_synonym fixed =
  "int list \<times> string \<times> (bool \<times> int \<times> int) \<times> (bool \<times> int list) \<times> int \<times> int \<times> int list \<times> int"

definition fixed_fields :: "pyfile \<Rightarrow> error + (fixed \<times> pyfile)" where
  "fixed_fields f =
     ebind (read_addresses f) (\<lambda>(addrs, f1).
     ebind (read_title f1 addrs) (\<lambda>(t, f2).
     ebind (read_maxmin f2 addrs) (\<lambda>((vm, mn, mx), f3).
     ebind (read_histogram f3 addrs) (\<lambda>((vh, h), f4).
     ebind (read_pixel_format f4 addrs) (\<lambda>(pf, f5).
     ebind (read_dimc f5 addrs) (\<lambda>(dc, f6).
     ebind (read_dimv f6 addrs) (\<lambda>(dv, f7).
     ebind (calculate_pixel_count dc dv) (\<lambda>pc.
     Inr ((addrs, t, (vm, mn, mx), (vh, h), pf, dc, dv, pc), f7)))))))))"


text \<open>The sample number \<open>k\<close> from an offset on.\<close>

definition sample_at :: "pyfile \<Rightarrow> int \<Rightarrow> nat \<Rightarrow> int" where
  "sample_at f off k = be_sint (take 2 (drop (nat off + 2 * k) (content f)))"


definition rows :: "ndarray \<Rightarrow> nat \<Rightarrow> nat \<Rightarrow> int list" where
  "rows a lo hi =
     take ((hi - lo) * prod_list (tl (shape a))) (drop (lo * prod_list (tl (shape a))) (data a))"

subsection \<open>Example files and example collaborators\<close>

text \<open>
  Two header parsers standing for those of \<^verbatim>\<open>header.py\<close>: the global header is the record
  itself; a slice record gives its first byte as the slice location and, when it has a
  second one, that digit as the echo number.
\<close>

definition ex_header :: "string \<Rightarrow> error + string" where
  "ex_header s = Inr s"

definition ex_slice :: "string \<Rightarrow> error + int slice_header" where
  "ex_slice s =
     (case s of
        [] \<Rightarrow> Inl CollaboratorError
      | [c] \<Rightarrow> Inr \<lparr>slice_location = of_char c, dicom_header = Map.empty\<rparr>
      | c # e # _ \<Rightarrow>
          Inr \<lparr>slice_location = of_char c,
               dicom_header = [''Echo Number'' \<mapsto> PyInt (of_char e - 48)]\<rparr>)"

text \<open>Four bytes, big-endian, of a number below \<open>2^32\<close>.\<close>

definition be32 :: "nat \<Rightarrow> bytes" where
  "be32 n = [char_of (n div 16777216), char_of (n div 65536), char_of (n div 256), char_of n]"

text \<open>The 32-bit two's complement reading of a number below \<open>2^32\<close>.\<close>

definition s32 :: "nat \<Rightarrow> int" where
  "s32 n = (if n mod 4294967296 < 2147483648 then int (n mod 4294967296)
            else int (n mod 4294967296) - 4294967296)"

text \<open>
  A file in the UNC layout: the address table, 4100 zero bytes that serve as max/min,
  histogram and pixel format, then \<^verbatim>\<open>dimc\<close>, \<^verbatim>\<open>dimv\<close> and the title field, and a tail in
  which the pixel and info addresses point.
\<close>

definition unc_bytes :: "nat \<Rightarrow> nat list \<Rightarrow> bytes \<Rightarrow> nat \<Rightarrow> nat \<Rightarrow> bytes \<Rightarrow> bytes" where
  "unc_bytes dc dv ttl pix_addr info_addr tail =
     concat (map be32 [36, 36, 4180, 36, 4136, 4140, pix_addr, info_addr, 0])
     @ replicate 4100 NUL @ be32 dc @ concat (map be32 dv) @ ttl @ tail"

definition unc_file :: "nat \<Rightarrow> nat list \<Rightarrow> bytes \<Rightarrow> nat \<Rightarrow> nat \<Rightarrow> bytes \<Rightarrow> pyfile" where
  "unc_file dc dv ttl pix_addr info_addr tail =
     \<lparr>content = unc_bytes dc dv ttl pix_addr info_addr tail, pos = 0\<rparr>"

text \<open>
  A well-formed file: title "BRAIN", three axes of extents 2, 1 and 2, the four samples
  1, 2, 3 and -1, a global header record and two slice records, the one of the larger
  slice location first.
\<close>

definition brain_tail :: bytes where
  "brain_tail =
     [NUL, CHR 0x01, NUL, CHR 0x02, NUL, CHR 0x03, CHR 0xFF, CHR 0xFF]
     @ ''hdr'' @ [NUL] @ ''b2'' @ [NUL] @ ''a1'' @ [NUL]"

definition file_brain :: pyfile where
  "file_brain =
     unc_file 3 [2, 1, 2, 0, 0, 0, 0, 0, 0, 0] (''BRAIN'' @ replicate 76 NUL) 4261 4269 brain_tail"

definition slice_a1 :: "int slice_header" where
  "slice_a1 = \<lparr>slice_location = 97, dicom_header = [''Echo Number'' \<mapsto> PyInt 1]\<rparr>"

definition slice_b2 :: "int slice_header" where
  "slice_b2 = \<lparr>slice_location = 98, dicom_header = [''Echo Number'' \<mapsto> PyInt 2]\<rparr>"

definition brain_attrs :: file_attrs where
  "brain_attrs =
     \<lparr>addresses = [36, 36, 4180, 36, 4136, 4140, 4261, 4269, 0], title = ''BRAIN'',
      valid_maxmin = False, min_val = 0, max_val = 0, valid_histogram = False,
      histogram = replicate 1024 0, pixel_format = 0, pixel_count = 4,
      info = [''hdr'', ''b2'', ''a1'']\<rparr>"

definition brain_volume :: "(string, int) UNCFile" where
  "brain_volume =
     \<lparr>header = ''hdr'', dimc = 3, dimv = [2, 1, 2, 0, 0, 0, 0, 0, 0, 0],
      slice_info = [slice_a1, slice_b2],
      pixels = \<lparr>dtype = Int16BE, shape = [2, 1, 2], data = [1, 2, 3, -1]\<rparr>,
      file_attrs = Some brain_attrs\<rparr>"

text \<open>
  A file whose title field holds 81 letters and no null byte; no axes, one sample, a global
  header record and no slice record.
\<close>

definition file_long_title :: pyfile where
  "file_long_title =
     unc_file 0 (replicate 10 0) (replicate 81 (CHR ''A'')) 4261 4263 [NUL, CHR 0x01, CHR ''h'']"

definition long_title_volume :: "(string, int) UNCFile" where
  "long_title_volume =
     \<lparr>header = ''h'', dimc = 0, dimv = replicate 10 0, slice_info = [],
      pixels = \<lparr>dtype = Int16BE, shape = [], data = [1]\<rparr>,
      file_attrs = Some \<lparr>addresses = [36, 36, 4180, 36, 4136, 4140, 4261, 4263, 0],
        title = replicate 81 (CHR ''A''), valid_maxmin = False, min_val = 0,
        max_val = 0, valid_histogram = False, histogram = replicate 1024 0, pixel_format = 0,
        pixel_count = 1, info = [''h'']\<rparr>\<rparr>"

text \<open>
  A file with one axis of extent -1: two samples follow the pixel address (the second one
  is the info section read as a sample), and there is a global header record only.
\<close>

definition file_negative_extent :: pyfile where
  "file_negative_extent =
     unc_file 1 (4294967295 # replicate 9 0) (replicate 81 NUL) 4261 4263
       [NUL, CHR 0x01, CHR ''h'', NUL]"

definition negative_extent_volume :: "(string, int) UNCFile" where
  "negative_extent_volume =
     \<lparr>header = ''h'', dimc = 1, dimv = - 1 # replicate 9 0, slice_info = [],
      pixels = \<lparr>dtype = Int16BE, shape = [2], data = [1, 26624]\<rparr>,
      file_attrs = Some \<lparr>addresses = [36, 36, 4180, 36, 4136, 4140, 4261, 4263, 0],
        title = [], valid_maxmin = False, min_val = 0,
        max_val = 0, valid_histogram = False, histogram = replicate 1024 0, pixel_format = 0,
        pixel_count = - 1, info = [''h'']\<rparr>\<rparr>"

text \<open>
  A file with no axis (\<^verbatim>\<open>dimc\<close> is 0) whose first \<^verbatim>\<open>dimv\<close> entry is -1: one sample and a
  global header record only.
\<close>

definition file_no_axes :: pyfile where
  "file_no_axes =
     unc_file 0 (4294967295 # replicate 9 0) (replicate 81 NUL) 4261 4263
       [NUL, CHR 0x01, CHR ''h'']"

definition no_axes_volume :: "(string, int) UNCFile" where
  "no_axes_volume =
     \<lparr>header = ''h'', dimc = 0, dimv = - 1 # replicate 9 0, slice_info = [],
      pixels = \<lparr>dtype = Int16BE, shape = [], data = [1]\<rparr>,
      file_attrs = Some \<lparr>addresses = [36, 36, 4180, 36, 4136, 4140, 4261, 4263, 0],
        title = [], valid_maxmin = False, min_val = 0,
        max_val = 0, valid_histogram = False, histogram = replicate 1024 0, pixel_format = 0,
        pixel_count = 1, info = [''h'']\<rparr>\<rparr>"





text \<open>
  A file with four axes, all of extent 1: one sample, a global header record and one slice
  record. And a volume of two axes, as a file with \<^verbatim>\<open>dimc = 2\<close> decodes to.
\<close>

definition file_unit_axes :: pyfile where
  "file_unit_axes =
     unc_file 4 [1, 1, 1, 1, 0, 0, 0, 0, 0, 0] (replicate 81 NUL) 4261 4263
       ([NUL, CHR 0x07] @ ''h'' @ [NUL] @ ''a1'')"

definition unit_axes_volume :: "(string, int) UNCFile" where
  "unit_axes_volume =
     \<lparr>header = ''h'', dimc = 4, dimv = [1, 1, 1, 1, 0, 0, 0, 0, 0, 0], slice_info = [slice_a1],
      pixels = \<lparr>dtype = Int16BE, shape = [1, 1, 1, 1], data = [7]\<rparr>,
      file_attrs = Some \<lparr>addresses = [36, 36, 4180, 36, 4136, 4140, 4261, 4263, 0],
        title = [], valid_maxmin = False, min_val = 0,
        max_val = 0, valid_histogram = False, histogram = replicate 1024 0, pixel_format = 0,
        pixel_count = 1, info = [''h'', ''a1'']\<rparr>\<rparr>"

definition unit_axes_part :: "(string, int) UNCFile" where
  "unit_axes_part =
     \<lparr>header = ''h'', dimc = 4, dimv = [1, 1, 1, 1, 0, 0, 0, 0, 0, 0], slice_info = [slice_a1],
      pixels = \<lparr>dtype = Float64, shape = [1, 1, 1], data = [7]\<rparr>, file_attrs = None\<rparr>"

definition flat_volume :: "(string, int) UNCFile" where
  "flat_volume =
     \<lparr>header = ''hdr'', dimc = 2, dimv = [2, 2, 0, 0, 0, 0, 0, 0, 0, 0],
      slice_info = [slice_a1, slice_b2],
      pixels = \<lparr>dtype = Int16BE, shape = [2, 2], data = [1, 2, 3, - 1]\<rparr>,
      file_attrs = None\<rparr>"

section \<open>Properties\<close>

subsection \<open>Exceptions and the primitive reads\<close>

lemma ebind_Inr_iff: "ebind m k = Inr y \<longleftrightarrow> (\<exists>x. m = Inr x \<and> k x = Inr y)"
  by (cases m) (simp_all add: ebind_def)

lemma ebind_Inr [simp]: "ebind (Inr x) k = k x"
  by (simp add: ebind_def)

lemma ebind_Inl [simp]: "ebind (Inl e) k = Inl e"
  by (simp add: ebind_def)

lemma seek_set_Inr_iff: "seek_set f off = Inr f' \<longleftrightarrow> 0 \<le> off \<and> f' = f\<lparr>pos := nat off\<rparr>"
  by (auto simp: seek_set_def)

lemma read_Inr_iff:
  "read f n = Inr (b, f') \<longleftrightarrow>
     -1 \<le> n \<and> b = (if n = -1 then drop (pos f) (content f) else take (nat n) (drop (pos f) (content f)))
     \<and> f' = f\<lparr>pos := pos f + length b\<rparr>"
  by (auto simp: read_def Let_def)

lemma unpack_i_length: "unpack_i n buf = Inr v \<Longrightarrow> length v = n"
  by (auto simp: unpack_i_def split: if_splits)

lemma split_max_one_hd: "split_max c (Suc 0) s ! 0 = takeWhile (\<lambda>x. x \<noteq> c) s"
proof (cases "dropWhile (\<lambda>x. x \<noteq> c) s")
  case Nil
  have "takeWhile (\<lambda>x. x \<noteq> c) s @ dropWhile (\<lambda>x. x \<noteq> c) s = s"
    by (rule takeWhile_dropWhile_id)
  with Nil have "takeWhile (\<lambda>x. x \<noteq> c) s = s"
    by (simp only: append_Nil2)
  with Nil show ?thesis
    by (simp only: split_max.simps list.case nth_Cons_0)
next
  case (Cons a rest)
  then show ?thesis
    by (simp only: split_max.simps list.case nth_Cons_0)
qed

lemma split_max_nonempty: "split_max c m s \<noteq> []"
  by (cases m) (simp_all split: list.splits)

subsection \<open>What a stage that succeeds has done\<close>

lemma read_addresses_D:
  assumes "read_addresses f = Inr (a, f')"
  shows "length a = 9" and "content f' = content f"
  using assms unfolding read_addresses_def
  by (auto simp: ebind_Inr_iff seek_set_Inr_iff read_Inr_iff dest: unpack_i_length split: prod.splits)

lemma read_title_D:
  assumes "read_title f addrs = Inr (t, f')"
  shows "content f' = content f"
    and "0 \<le> addrs ! TITLE"
    and "length (take 81 (drop (nat (addrs ! TITLE)) (content f))) = 81"
    and "t = takeWhile (\<lambda>c. c \<noteq> NUL) (take 81 (drop (nat (addrs ! TITLE)) (content f)))"
  using assms unfolding read_title_def
  by (auto simp: ebind_Inr_iff seek_set_Inr_iff read_Inr_iff unpack_s_def decode_ascii_def
      py_index_def split_max_one_hd simp del: split_max.simps split: prod.splits if_splits)

lemma read_maxmin_content: "read_maxmin f addrs = Inr (v, f') \<Longrightarrow> content f' = content f"
  unfolding read_maxmin_def
  by (auto simp: ebind_Inr_iff seek_set_Inr_iff read_Inr_iff split: prod.splits)

lemma read_histogram_D:
  assumes "read_histogram f addrs = Inr ((vh, h), f')"
  shows "content f' = content f" and "length h = 1024"
  using assms unfolding read_histogram_def
  by (auto simp: ebind_Inr_iff seek_set_Inr_iff read_Inr_iff dest: unpack_i_length split: prod.splits)

lemma read_pixel_format_content: "read_pixel_format f addrs = Inr (v, f') \<Longrightarrow> content f' = content f"
  unfolding read_pixel_format_def
  by (auto simp: ebind_Inr_iff seek_set_Inr_iff read_Inr_iff split: prod.splits)

lemma read_dimc_content: "read_dimc f addrs = Inr (v, f') \<Longrightarrow> content f' = content f"
  unfolding read_dimc_def
  by (auto simp: ebind_Inr_iff seek_set_Inr_iff read_Inr_iff split: prod.splits)

lemma read_dimv_D:
  assumes "read_dimv f addrs = Inr (dv, f')"
  shows "content f' = content f" and "length dv = 10"
  using assms unfolding read_dimv_def
  by (auto simp: ebind_Inr_iff seek_set_Inr_iff read_Inr_iff dest: unpack_i_length split: prod.splits)

lemma mult_loop_Inr_iff:
  "mult_loop dv js acc = Inr r \<longleftrightarrow> (\<forall>i\<in>set js. i < length dv) \<and> r = acc * prod_list (map ((!) dv) js)"
  by (induction js arbitrary: acc) (auto simp: ebind_Inr_iff py_index_def mult.assoc)

lemma calculate_pixel_count_Inr_iff:
  "calculate_pixel_count dc dv = Inr pc \<longleftrightarrow> nat dc \<le> length dv \<and> pc = prod_list (take (nat dc) dv)"
proof -
  have "map ((!) dv) [0..<nat dc] = take (nat dc) dv" if "nat dc \<le> length dv"
    using that by (intro nth_equalityI) auto
  moreover have "(\<forall>i\<in>set [0..<nat dc]. i < length dv) \<longleftrightarrow> nat dc \<le> length dv"
    by (auto simp: Ball_def) (meson leI less_le_trans nat_less_le not_less_iff_gr_or_eq)
  ultimately show ?thesis
    unfolding calculate_pixel_count_def mult_loop_Inr_iff by auto
qed

lemma slice_loop_Inr_iff:
  "slice_loop Q recs js acc = Inr sl \<longleftrightarrow>
     (\<forall>i\<in>set js. i < length recs) \<and>
     (\<exists>hs. map (\<lambda>i. Q (recs ! i)) js = map Inr hs \<and> sl = acc @ hs)"
proof (induction js arbitrary: acc)
  case Nil
  then show ?case by auto
next
  case (Cons j js)
  show ?case
  proof (cases "j < length recs")
    case False
    then show ?thesis by (simp add: py_index_def)
  next
    case True
    show ?thesis
    proof (cases "Q (recs ! j)")
      case (Inl e)
      with True show ?thesis by (auto simp: py_index_def map_eq_Cons_conv Cons_eq_map_conv)
    next
      case (Inr h)
      have "(\<exists>hs. Inr h # map (\<lambda>i. Q (recs ! i)) js = map Inr hs \<and> sl = acc @ hs) \<longleftrightarrow>
            (\<exists>hs'. map (\<lambda>i. Q (recs ! i)) js = map Inr hs' \<and> sl = (acc @ [h]) @ hs')"
        by (auto simp: Cons_eq_map_conv)
      with True Inr show ?thesis
        by (simp add: py_index_def Cons.IH)
    qed
  qed
qed

lemma read_info_D:
  assumes "read_info P Q f addrs dv = Inr ((recs, hdr, sl), f')"
  shows "content f' = content f"
    and "0 \<le> addrs ! INFO"
    and "recs = info_records (drop (nat (addrs ! INFO)) (content f))"
    and "recs \<noteq> []"
    and "P (recs ! 0) = Inr hdr"
    and "\<forall>i\<in>set [1..<nat (dv ! 0 + 1)]. i < length recs"
    and "\<exists>hs. map (\<lambda>i. Q (recs ! i)) [1..<nat (dv ! 0 + 1)] = map Inr hs \<and>
           sl = sort_key slice_location hs"
  using assms unfolding read_info_def Let_def
  by (auto simp: ebind_Inr_iff seek_set_Inr_iff read_Inr_iff seek_end_def tell_def
      decode_ascii_def py_index_def slice_loop_Inr_iff split: prod.splits if_splits)

lemma from_file_InrD:
  assumes "from_file P Q f = Inr u"
  shows "\<exists>addrs f1 t f2 vm mn mx f3 vh h f4 pf f5 dc f6 dv f7 pc recs hdr sl f8 px f9.
     read_addresses f = Inr (addrs, f1) \<and>
     read_title f1 addrs = Inr (t, f2) \<and>
     read_maxmin f2 addrs = Inr ((vm, mn, mx), f3) \<and>
     read_histogram f3 addrs = Inr ((vh, h), f4) \<and>
     read_pixel_format f4 addrs = Inr (pf, f5) \<and>
     read_dimc f5 addrs = Inr (dc, f6) \<and>
     read_dimv f6 addrs = Inr (dv, f7) \<and>
     calculate_pixel_count dc dv = Inr pc \<and>
     read_info P Q f7 addrs dv = Inr ((recs, hdr, sl), f8) \<and>
     read_pixels f8 addrs pc dc dv = Inr (px, f9) \<and>
     u = \<lparr>header = hdr, dimc = dc, dimv = dv, slice_info = sl, pixels = px,
          file_attrs = Some \<lparr>addresses = addrs, title = t, valid_maxmin = vm, min_val = mn,
            max_val = mx, valid_histogram = vh, histogram = h, pixel_format = pf,
            pixel_count = pc, info = recs\<rparr>\<rparr>"
  using assms unfolding from_file_def
  by (auto simp: ebind_Inr_iff split: prod.splits)

lemma from_file_fixed:
  "from_file P Q f =
     ebind (fixed_fields f) (\<lambda>((addrs, t, (vm, mn, mx), (vh, h), pf, dc, dv, pc), f7).
     ebind (read_info P Q f7 addrs dv) (\<lambda>((recs, hdr, sl), f8).
     ebind (read_pixels f8 addrs pc dc dv) (\<lambda>(px, f9).
     Inr \<lparr>header = hdr, dimc = dc, dimv = dv, slice_info = sl, pixels = px,
          file_attrs = Some \<lparr>addresses = addrs, title = t, valid_maxmin = vm, min_val = mn,
            max_val = mx, valid_histogram = vh, histogram = h, pixel_format = pf,
            pixel_count = pc, info = recs\<rparr>\<rparr>)))"
  unfolding from_file_def fixed_fields_def
  by (simp add: ebind_def split: sum.splits prod.splits)



lemma fromfile_Inr_iff:
  "fromfile f c = Inr lin \<longleftrightarrow>
     - (2 ^ 63) \<le> c \<and> c < 2 ^ 63 \<and>
     lin = map (\<lambda>k. be_sint (take 2 (drop (pos f + 2 * k) (content f))))
             [0..<(if c < 0 then (length (content f) - pos f) div 2
                   else min (nat c) ((length (content f) - pos f) div 2))]"
  by (auto simp: fromfile_def Let_def add.commute)

lemma reshape_nonneg:
  assumes "\<forall>d\<in>set dims. 0 \<le> d"
  shows "reshape lin dims = Inr a \<longleftrightarrow>
     length lin = prod_list (map nat dims) \<and>
     a = \<lparr>dtype = Int16BE, shape = map nat dims, data = lin\<rparr>"
proof -
  from assms have "filter (\<lambda>d. d < 0) dims = []" "filter (\<lambda>d. 0 \<le> d) dims = dims"
    by (auto simp: filter_empty_conv filter_id_conv)
  then show ?thesis
    by (auto simp: reshape_def Let_def)
qed

lemma read_pixels_Inr_iff:
  "read_pixels f addrs pc dc dv = Inr (px, f') \<longleftrightarrow>
     0 \<le> addrs ! PIXELS \<and>
     (\<exists>lin. fromfile (f\<lparr>pos := nat (addrs ! PIXELS)\<rparr>) pc = Inr lin \<and>
        reshape lin (py_slice_to dv dc) = Inr px \<and>
        f' = f\<lparr>pos := nat (addrs ! PIXELS) + 2 * length lin\<rparr>)"
  unfolding read_pixels_def
  by (auto simp: ebind_Inr_iff seek_set_Inr_iff)

subsection \<open>Reading the example files\<close>

lemma be_uint_be32: "be_uint (be32 n) = n mod 4294967296"
proof -
  have a: "n mod 4294967296 = 256 * ((n div 256) mod 16777216) + n mod 256"
    using mod_mult2_eq [of n 256 16777216] by simp
  have b: "(n div 256) mod 16777216 = 256 * ((n div 65536) mod 65536) + n div 256 mod 256"
    using mod_mult2_eq [of "n div 256" 256 65536] div_mult2_eq [of n 256 256] by simp
  have c: "(n div 65536) mod 65536 = 256 * ((n div 16777216) mod 256) + n div 65536 mod 256"
    using mod_mult2_eq [of "n div 65536" 256 256] div_mult2_eq [of n 65536 256] by simp
  show ?thesis
    unfolding be_uint_def be32_def by (simp add: a b c)
qed

lemma length_be32 [simp]: "length (be32 n) = 4"
  by (simp add: be32_def)

lemma be_sint_be32: "be_sint (be32 n) = s32 n"
  by (simp add: be_sint_def be_uint_be32 s32_def)

lemma length_concat_be32 [simp]: "length (concat (map be32 ns)) = 4 * length ns"
  by (induction ns) simp_all

lemma chunk_concat_be32:
  "k < length ns \<Longrightarrow> take 4 (drop (4 * k) (concat (map be32 ns) @ rest)) = be32 (ns ! k)"
proof (induction ns arbitrary: k)
  case Nil
  then show ?case by simp
next
  case (Cons a ns)
  show ?case
  proof (cases k)
    case 0
    then show ?thesis by simp
  next
    case (Suc j)
    with Cons.prems have "j < length ns" by simp
    then have "take 4 (drop (4 * j) (concat (map be32 ns) @ rest)) = be32 (ns ! j)"
      by (rule Cons.IH)
    with Suc show ?thesis by simp
  qed
qed

lemma unpack_i_be32: "n = length ns \<Longrightarrow> unpack_i n (concat (map be32 ns)) = Inr (map s32 ns)"
proof -
  assume n: "n = length ns"
  have "map (\<lambda>k. be_sint (take 4 (drop (4 * k) (concat (map be32 ns))))) [0..<length ns] = map s32 ns"
    using chunk_concat_be32 [of _ ns "[]"]
    by (intro nth_equalityI) (simp_all add: be_sint_be32)
  with n show ?thesis by (simp add: unpack_i_def)
qed

lemma unpack_i_zeros: "m = 4 * n \<Longrightarrow> unpack_i n (replicate m NUL) = Inr (replicate n 0)"
proof -
  assume m: "m = 4 * n"
  have "replicate 4 NUL = [NUL, NUL, NUL, NUL]"
    by (simp add: numeral_eq_Suc)
  then have z: "be_sint (replicate 4 NUL) = 0"
    by (simp add: be_sint_def be_uint_def NUL_def)
  have "map (\<lambda>k. be_sint (take 4 (drop (4 * k) (replicate (4 * n) NUL)))) [0..<n] = replicate n 0"
  proof (intro nth_equalityI)
    show "length (map (\<lambda>k. be_sint (take 4 (drop (4 * k) (replicate (4 * n) NUL)))) [0..<n])
        = length (replicate n (0::int))"
      by simp
  next
    fix i
    assume "i < length (map (\<lambda>k. be_sint (take 4 (drop (4 * k) (replicate (4 * n) NUL)))) [0..<n])"
    then have i: "i < n" by simp
    then have "min (4 * n - 4 * i) 4 = 4" by simp
    with i z show "map (\<lambda>k. be_sint (take 4 (drop (4 * k) (replicate (4 * n) NUL)))) [0..<n] ! i
        = replicate n 0 ! i"
      by (simp add: min.commute)
  qed
  with m show ?thesis by (simp add: unpack_i_def)
qed

lemma s32_small: "n < 2147483648 \<Longrightarrow> s32 n = int n"
  by (simp add: s32_def)

lemma ex_read_addresses:
  "pa < 2147483648 \<Longrightarrow> ia < 2147483648 \<Longrightarrow>
   read_addresses \<lparr>content = unc_bytes dc dv ttl pa ia tail, pos = p\<rparr> =
     Inr ([36, 36, 4180, 36, 4136, 4140, int pa, int ia, 0],
          \<lparr>content = unc_bytes dc dv ttl pa ia tail, pos = 36\<rparr>)"
  unfolding read_addresses_def unc_bytes_def
  using unpack_i_be32 [of 9 "[36, 36, 4180, 36, 4136, 4140, pa, ia, 0]"]
  by (simp add: seek_set_def read_def s32_small)

lemma ex_read_title:
  assumes "length dv = 10" "length ttl = 81" "list_all (\<lambda>c. (of_char c :: nat) < 128) ttl"
  shows "read_title \<lparr>content = unc_bytes dc dv ttl pa ia tail, pos = p\<rparr>
           [36, 36, 4180, 36, 4136, 4140, int pa, int ia, 0] =
     Inr (takeWhile (\<lambda>c. c \<noteq> NUL) ttl,
          \<lparr>content = unc_bytes dc dv ttl pa ia tail, pos = 4261\<rparr>)"
  unfolding read_title_def unc_bytes_def using assms
  by (simp add: seek_set_def read_def TITLE_def unpack_s_def decode_ascii_def py_index_def
      split_max_nonempty split_max_one_hd del: split_max.simps)


lemma ex_read_maxmin:
  "read_maxmin \<lparr>content = unc_bytes dc dv ttl pa ia tail, pos = p\<rparr>
           [36, 36, 4180, 36, 4136, 4140, int pa, int ia, 0] =
     Inr ((False, 0, 0), \<lparr>content = unc_bytes dc dv ttl pa ia tail, pos = 48\<rparr>)"
  unfolding read_maxmin_def unc_bytes_def
  by (simp add: seek_set_def read_def MAXMIN_def unpack_i_zeros)

lemma ex_read_histogram:
  "read_histogram \<lparr>content = unc_bytes dc dv ttl pa ia tail, pos = p\<rparr>
           [36, 36, 4180, 36, 4136, 4140, int pa, int ia, 0] =
     Inr ((False, replicate 1024 0), \<lparr>content = unc_bytes dc dv ttl pa ia tail, pos = 4136\<rparr>)"
  unfolding read_histogram_def unc_bytes_def
  by (simp add: seek_set_def read_def HISTO_def unpack_i_zeros)

lemma ex_read_pixel_format:
  "read_pixel_format \<lparr>content = unc_bytes dc dv ttl pa ia tail, pos = p\<rparr>
           [36, 36, 4180, 36, 4136, 4140, int pa, int ia, 0] =
     Inr (0, \<lparr>content = unc_bytes dc dv ttl pa ia tail, pos = 40\<rparr>)"
  unfolding read_pixel_format_def unc_bytes_def
  by (simp add: seek_set_def read_def PIXEL_FORMAT_def unpack_i_zeros)

lemma ex_read_dimc:
  "read_dimc \<lparr>content = unc_bytes dc dv ttl pa ia tail, pos = p\<rparr>
           [36, 36, 4180, 36, 4136, 4140, int pa, int ia, 0] =
     Inr (s32 dc, \<lparr>content = unc_bytes dc dv ttl pa ia tail, pos = 4140\<rparr>)"
  unfolding read_dimc_def unc_bytes_def
  using unpack_i_be32 [of 1 "[dc]"]
  by (simp add: seek_set_def read_def DIMC_def)

lemma ex_read_dimv:
  "length dv = 10 \<Longrightarrow>
   read_dimv \<lparr>content = unc_bytes dc dv ttl pa ia tail, pos = p\<rparr>
           [36, 36, 4180, 36, 4136, 4140, int pa, int ia, 0] =
     Inr (map s32 dv, \<lparr>content = unc_bytes dc dv ttl pa ia tail, pos = 4180\<rparr>)"
  unfolding read_dimv_def unc_bytes_def
  using unpack_i_be32 [of 10 dv]
  by (simp add: seek_set_def read_def DIMV_def)

lemma ex_fixed_fields:
  assumes "length dv = 10" "length ttl = 81" "list_all (\<lambda>c. (of_char c :: nat) < 128) ttl"
    and "pa < 2147483648" "ia < 2147483648"
  shows "fixed_fields (unc_file dc dv ttl pa ia tail) =
     ebind (calculate_pixel_count (s32 dc) (map s32 dv)) (\<lambda>pc.
       Inr (([36, 36, 4180, 36, 4136, 4140, int pa, int ia, 0], takeWhile (\<lambda>c. c \<noteq> NUL) ttl,
             (False, 0, 0), (False, replicate 1024 0), 0, s32 dc, map s32 dv, pc),
            \<lparr>content = unc_bytes dc dv ttl pa ia tail, pos = 4180\<rparr>))"
  unfolding fixed_fields_def unc_file_def
  by (simp add: ex_read_addresses ex_read_title ex_read_maxmin ex_read_histogram
      ex_read_pixel_format ex_read_dimc ex_read_dimv assms)

lemma length_unc_bytes:
  "length dv = 10 \<Longrightarrow> length ttl = 81 \<Longrightarrow>
   length (unc_bytes dc dv ttl pa ia tail) = 4261 + length tail"
  by (simp add: unc_bytes_def)

lemma drop_unc_bytes:
  "length dv = 10 \<Longrightarrow> length ttl = 81 \<Longrightarrow>
   drop (4261 + k) (unc_bytes dc dv ttl pa ia tail) = drop k tail"
  by (simp add: unc_bytes_def)

lemma ex_from_file:
  assumes "length dv = 10" "length ttl = 81" "list_all (\<lambda>c. (of_char c :: nat) < 128) ttl"
    and "pa < 2147483648" "ia < 2147483648"
  shows "from_file P Q (unc_file dc dv ttl pa ia tail) =
     ebind (calculate_pixel_count (s32 dc) (map s32 dv)) (\<lambda>pc.
     ebind (read_info P Q \<lparr>content = unc_bytes dc dv ttl pa ia tail, pos = 4180\<rparr>
              [36, 36, 4180, 36, 4136, 4140, int pa, int ia, 0] (map s32 dv)) (\<lambda>((recs, hdr, sl), f8).
     ebind (read_pixels f8 [36, 36, 4180, 36, 4136, 4140, int pa, int ia, 0] pc (s32 dc) (map s32 dv))
       (\<lambda>(px, f9).
     Inr \<lparr>header = hdr, dimc = s32 dc, dimv = map s32 dv, slice_info = sl, pixels = px,
          file_attrs = Some \<lparr>addresses = [36, 36, 4180, 36, 4136, 4140, int pa, int ia, 0],
            title = takeWhile (\<lambda>c. c \<noteq> NUL) ttl, valid_maxmin = False, min_val = 0,
            max_val = 0, valid_histogram = False, histogram = replicate 1024 0, pixel_format = 0,
            pixel_count = pc, info = recs\<rparr>\<rparr>)))"
  unfolding from_file_fixed ex_fixed_fields [OF assms]
  by (cases "calculate_pixel_count (s32 dc) (map s32 dv)") simp_all

lemma ex_read_info:
  assumes "length dv = 10" "length ttl = 81"
    and "list_all (\<lambda>c. (of_char c :: nat) < 128) (drop k tail)" and "k \<le> length tail"
  shows "read_info P Q \<lparr>content = unc_bytes dc dv ttl pa ia tail, pos = p\<rparr>
           [36, 36, 4180, 36, 4136, 4140, int pa, int (4261 + k), 0] dv' =
     (let recs = info_records (drop k tail)
      in ebind (py_index recs 0) (\<lambda>r0.
         ebind (P r0) (\<lambda>hdr.
         ebind (slice_loop Q recs [1..<nat (dv' ! 0 + 1)] []) (\<lambda>sl.
         Inr ((recs, hdr, sort_key slice_location sl),
              \<lparr>content = unc_bytes dc dv ttl pa ia tail, pos = 4261 + length tail\<rparr>)))))"
proof -
  from assms(3) show ?thesis
    unfolding read_info_def using assms(1,2,4)
    by (simp add: seek_end_def tell_def seek_set_def read_def INFO_def length_unc_bytes
        drop_unc_bytes decode_ascii_def Let_def nat_add_distrib)
qed

lemma ex_read_pixels:
  assumes "length dv = 10" "length ttl = 81"
  shows "read_pixels \<lparr>content = unc_bytes dc dv ttl pa ia tail, pos = p\<rparr>
           [36, 36, 4180, 36, 4136, 4140, int (4261 + j), int ia', 0] pc dc' dv' =
     (if pc < - (2 ^ 63) \<or> 2 ^ 63 \<le> pc then Inl OverflowError
      else let n = (if pc < 0 then (length tail - j) div 2
                    else min (nat pc) ((length tail - j) div 2));
               lin = map (\<lambda>k. be_sint (take 2 (drop (2 * k) (drop j tail)))) [0..<n]
           in ebind (reshape lin (py_slice_to dv' dc')) (\<lambda>px.
              Inr (px, \<lparr>content = unc_bytes dc dv ttl pa ia tail, pos = 4261 + j + 2 * n\<rparr>)))"
  unfolding read_pixels_def using assms
  by (simp add: seek_set_def PIXELS_def fromfile_def Let_def length_unc_bytes drop_unc_bytes
      nat_add_distrib)

lemma be_sint_two: "be_sint [a, b] =
  (if of_char a * 256 + of_char b < (32768::nat) then int (of_char a * 256 + of_char b)
   else int (of_char a * 256 + of_char b) - 65536)"
  by (simp add: be_sint_def be_uint_def Let_def)

lemma decode_long_title: "from_file ex_header ex_slice file_long_title = Inr long_title_volume"
proof -
  have t: "takeWhile (\<lambda>c. c \<noteq> NUL) (replicate 81 (CHR ''A'')) = replicate 81 (CHR ''A'')"
    by (simp add: NUL_def)
  have i: "read_info ex_header ex_slice
      \<lparr>content = unc_bytes 0 (replicate 10 0) (replicate 81 (CHR ''A'')) 4261 4263 [NUL, CHR 0x01, CHR ''h''], pos = 4180\<rparr>
      [36, 36, 4180, 36, 4136, 4140, int 4261, int (4261 + 2), 0] (map s32 (replicate 10 0))
    = Inr (([''h''], ''h'', []), \<lparr>content = unc_bytes 0 (replicate 10 0) (replicate 81 (CHR ''A'')) 4261 4263 [NUL, CHR 0x01, CHR ''h''], pos = 4261 + 3\<rparr>)"
    by (subst ex_read_info)
       (simp_all add: NUL_def info_records_def py_index_def ex_header_def s32_def)
  have p: "read_pixels
      \<lparr>content = unc_bytes 0 (replicate 10 0) (replicate 81 (CHR ''A'')) 4261 4263 [NUL, CHR 0x01, CHR ''h''], pos = 4264\<rparr>
      [36, 36, 4180, 36, 4136, 4140, int (4261 + 0), int 4263, 0] 1 0 (replicate 10 0)
    = Inr (\<lparr>dtype = Int16BE, shape = [], data = [1]\<rparr>, \<lparr>content = unc_bytes 0 (replicate 10 0) (replicate 81 (CHR ''A'')) 4261 4263 [NUL, CHR 0x01, CHR ''h''], pos = 4261 + 0 + 2 * 1\<rparr>)"
    by (subst ex_read_pixels)
       (simp_all add: NUL_def be_sint_two reshape_def py_slice_to_def)
  have c: "calculate_pixel_count 0 (replicate 10 0) = Inr 1"
    by (simp add: calculate_pixel_count_def)
  show ?thesis
    unfolding file_long_title_def long_title_volume_def
    apply (subst ex_from_file)
    using i p c
    apply (simp_all add: t s32_def NUL_def list_all_iff)
    done
qed

lemma slice_locations [simp]: "slice_location slice_a1 = 97" "slice_location slice_b2 = 98"
  by (simp_all add: slice_a1_def slice_b2_def)

lemma sort_slices: "sort_key slice_location [slice_b2, slice_a1] = [slice_a1, slice_b2]"
  by (simp add: slice_a1_def slice_b2_def)

lemma decode_brain: "from_file ex_header ex_slice file_brain = Inr brain_volume"
proof -
  have t: "takeWhile (\<lambda>c. c \<noteq> NUL) (''BRAIN'' @ replicate 76 NUL) = ''BRAIN''"
    by (simp add: NUL_def takeWhile_append)
  have q: "ex_slice ''b2'' = Inr slice_b2" "ex_slice ''a1'' = Inr slice_a1"
    by (simp_all add: ex_slice_def slice_a1_def slice_b2_def)
  have r: "info_records (drop 8 brain_tail) = [''hdr'', ''b2'', ''a1'']"
    by (simp add: brain_tail_def info_records_def NUL_def)
  have u: "[Suc 0..<3] = [Suc 0, 2]"
    by code_simp
  have i: "read_info ex_header ex_slice
      \<lparr>content = unc_bytes 3 [2, 1, 2, 0, 0, 0, 0, 0, 0, 0] (''BRAIN'' @ replicate 76 NUL) 4261 4269 brain_tail, pos = 4180\<rparr>
      [36, 36, 4180, 36, 4136, 4140, int 4261, int (4261 + 8), 0] [2, 1, 2, 0, 0, 0, 0, 0, 0, 0]
    = Inr (([''hdr'', ''b2'', ''a1''], ''hdr'', [slice_a1, slice_b2]),
        \<lparr>content = unc_bytes 3 [2, 1, 2, 0, 0, 0, 0, 0, 0, 0] (''BRAIN'' @ replicate 76 NUL) 4261 4269 brain_tail, pos = 4261 + length brain_tail\<rparr>)"
    apply (subst ex_read_info)
        apply (simp_all add: r py_index_def ex_header_def u q sort_slices Let_def)
     apply (simp_all add: brain_tail_def NUL_def)
    done
  have len: "length brain_tail = 18"
    by (simp add: brain_tail_def)
  have u4: "[0..<4] = [0, 1, 2, 3]"
    by code_simp
  have d: "map (\<lambda>k. be_sint (take 2 (drop (2 * k) (drop 0 brain_tail)))) [0..<4] = [1, 2, 3, -1]"
    by (simp add: brain_tail_def NUL_def be_sint_two u4)
  have p: "read_pixels
      \<lparr>content = unc_bytes 3 [2, 1, 2, 0, 0, 0, 0, 0, 0, 0] (''BRAIN'' @ replicate 76 NUL) 4261 4269 brain_tail, pos = 4261 + length brain_tail\<rparr>
      [36, 36, 4180, 36, 4136, 4140, int (4261 + 0), int 4269, 0] 4 3 [2, 1, 2, 0, 0, 0, 0, 0, 0, 0]
    = Inr (\<lparr>dtype = Int16BE, shape = [2, 1, 2], data = [1, 2, 3, -1]\<rparr>,
        \<lparr>content = unc_bytes 3 [2, 1, 2, 0, 0, 0, 0, 0, 0, 0] (''BRAIN'' @ replicate 76 NUL) 4261 4269 brain_tail, pos = 4261 + 0 + 2 * 4\<rparr>)"
    using d by (subst ex_read_pixels) (simp_all add: Let_def len reshape_def py_slice_to_def)
  have c: "calculate_pixel_count 3 [2, 1, 2, 0, 0, 0, 0, 0, 0, 0] = Inr 4"
    by (simp add: calculate_pixel_count_Inr_iff)
  show ?thesis
    unfolding file_brain_def brain_volume_def brain_attrs_def
    apply (subst ex_from_file)
    using i p c
    apply (simp_all add: t s32_def NUL_def list_all_iff)
    done
qed

lemma s32_minus_one: "s32 4294967295 = - 1"
  by (simp add: s32_def)

lemma decode_negative_extent:
  "from_file ex_header ex_slice file_negative_extent = Inr negative_extent_volume"
proof -
  let ?c = "unc_bytes 1 (4294967295 # replicate 9 0) (replicate 81 NUL) 4261 4263
       [NUL, CHR 0x01, CHR ''h'', NUL]"
  have t: "takeWhile (\<lambda>c. c \<noteq> NUL) (replicate 81 NUL) = []"
    by (simp add: numeral_eq_Suc)
  have dv: "map s32 (4294967295 # replicate 9 0) = - 1 # replicate 9 0"
    by (simp add: s32_def)
  have i: "read_info ex_header ex_slice \<lparr>content = ?c, pos = 4180\<rparr>
      [36, 36, 4180, 36, 4136, 4140, int 4261, int (4261 + 2), 0] (- 1 # replicate 9 0)
    = Inr (([''h''], ''h'', []), \<lparr>content = ?c, pos = 4261 + 4\<rparr>)"
    by (subst ex_read_info)
       (simp_all add: NUL_def info_records_def py_index_def ex_header_def)
  have u2: "[0..<2] = [0, 1]"
    by code_simp
  have p: "read_pixels \<lparr>content = ?c, pos = 4265\<rparr>
      [36, 36, 4180, 36, 4136, 4140, int (4261 + 0), int 4263, 0] (- 1) 1 (- 1 # replicate 9 0)
    = Inr (\<lparr>dtype = Int16BE, shape = [2], data = [1, 26624]\<rparr>,
           \<lparr>content = ?c, pos = 4261 + 0 + 2 * 2\<rparr>)"
    by (subst ex_read_pixels)
       (simp_all add: NUL_def be_sint_two reshape_def py_slice_to_def u2)
  have c: "calculate_pixel_count 1 (- 1 # replicate 9 0) = Inr (- 1)"
    by (simp add: calculate_pixel_count_Inr_iff)
  show ?thesis
    unfolding file_negative_extent_def negative_extent_volume_def
    apply (subst ex_from_file)
    using i p c
    apply (simp_all add: t dv list_all_iff)
     apply (simp_all add: s32_def NUL_def)
    done
qed

lemma decode_no_axes: "from_file ex_header ex_slice file_no_axes = Inr no_axes_volume"
proof -
  let ?c = "unc_bytes 0 (4294967295 # replicate 9 0) (replicate 81 NUL) 4261 4263
       [NUL, CHR 0x01, CHR ''h'']"
  have t: "takeWhile (\<lambda>c. c \<noteq> NUL) (replicate 81 NUL) = []"
    by (simp add: numeral_eq_Suc)
  have dv: "map s32 (4294967295 # replicate 9 0) = - 1 # replicate 9 0"
    by (simp add: s32_def)
  have i: "read_info ex_header ex_slice \<lparr>content = ?c, pos = 4180\<rparr>
      [36, 36, 4180, 36, 4136, 4140, int 4261, int (4261 + 2), 0] (- 1 # replicate 9 0)
    = Inr (([''h''], ''h'', []), \<lparr>content = ?c, pos = 4261 + 3\<rparr>)"
    by (subst ex_read_info)
       (simp_all add: NUL_def info_records_def py_index_def ex_header_def)
  have p: "read_pixels \<lparr>content = ?c, pos = 4264\<rparr>
      [36, 36, 4180, 36, 4136, 4140, int (4261 + 0), int 4263, 0] 1 0 (- 1 # replicate 9 0)
    = Inr (\<lparr>dtype = Int16BE, shape = [], data = [1]\<rparr>,
           \<lparr>content = ?c, pos = 4261 + 0 + 2 * 1\<rparr>)"
    by (subst ex_read_pixels)
       (simp_all add: NUL_def be_sint_two reshape_def py_slice_to_def)
  have c: "calculate_pixel_count 0 (- 1 # replicate 9 0) = Inr 1"
    by (simp add: calculate_pixel_count_Inr_iff)
  show ?thesis
    unfolding file_no_axes_def no_axes_volume_def
    apply (subst ex_from_file)
    using i p c
    apply (simp_all add: t dv list_all_iff)
     apply (simp_all add: s32_def NUL_def)
    done
qed

subsection \<open>The number of echoes\<close>

text \<open>
  Claim C5. For every volume, \<^verbatim>\<open>num_echoes\<close> is the number of distinct values of the
  "Echo Number" field over the records of \<^verbatim>\<open>slice_info\<close>, where a record without the field
  contributes the value 0, which counts as one value like any other.
\<close>

theorem num_echoes_distinct_values:
  "num_echoes u =
     card ((\<lambda>s. case dicom_header s ''Echo Number'' of None \<Rightarrow> PyInt 0 | Some v \<Rightarrow> v)
             ` set (slice_info u))"
  by (simp add: num_echoes_def length_remdups_card_conv echo_or_zero_def [abs_def])

subsection \<open>The title\<close>

lemma takeWhile_shorter: "x \<in> set xs \<Longrightarrow> \<not> P x \<Longrightarrow> length (takeWhile P xs) < length xs"
  by (induction xs) auto

text \<open>
  Claim C3, as amended. For every decoded volume the title is the part of the 81-byte title
  field before its first null byte (the whole field when it holds none). So the title never
  holds a null byte and is never longer than 81 characters; it is at most 80 characters
  long whenever the field holds a null byte.
\<close>

theorem title_before_first_null:
  assumes "from_file P Q f = Inr u"
  shows "\<exists>a. file_attrs u = Some a \<and>
     length (take 81 (drop (nat (addresses a ! TITLE)) (content f))) = 81 \<and>
     title a = takeWhile (\<lambda>c. c \<noteq> NUL) (take 81 (drop (nat (addresses a ! TITLE)) (content f))) \<and>
     NUL \<notin> set (title a) \<and> length (title a) \<le> 81 \<and>
     (NUL \<in> set (take 81 (drop (nat (addresses a ! TITLE)) (content f)))
        \<longrightarrow> length (title a) \<le> 80)"
proof -
  from from_file_InrD [OF assms] obtain addrs f1 t f2 vm mn mx vh h pf dc dv pc recs hdr sl px
    where a: "read_addresses f = Inr (addrs, f1)"
      and t: "read_title f1 addrs = Inr (t, f2)"
      and u: "u = \<lparr>header = hdr, dimc = dc, dimv = dv, slice_info = sl, pixels = px,
          file_attrs = Some \<lparr>addresses = addrs, title = t, valid_maxmin = vm, min_val = mn,
            max_val = mx, valid_histogram = vh, histogram = h, pixel_format = pf,
            pixel_count = pc, info = recs\<rparr>\<rparr>"
    by blast
  define field where "field = take 81 (drop (nat (addrs ! TITLE)) (content f))"
  have c: "content f1 = content f" using a by (rule read_addresses_D(2))
  have len: "length field = 81"
    using read_title_D(3) [OF t] c by (simp add: field_def)
  have tt: "t = takeWhile (\<lambda>c. c \<noteq> NUL) field"
    using read_title_D(4) [OF t] c by (simp add: field_def)
  have no_nul: "NUL \<notin> set t"
    unfolding tt by (auto dest: set_takeWhileD)
  have le: "length t \<le> 81"
    unfolding tt using length_takeWhile_le [of "\<lambda>c. c \<noteq> NUL" field] len by simp
  have lt: "length t \<le> 80" if "NUL \<in> set field"
  proof -
    from that have "length (takeWhile (\<lambda>c. c \<noteq> NUL) field) < length field"
      by (rule takeWhile_shorter) simp
    with len show ?thesis unfolding tt by simp
  qed
  show ?thesis
    using len tt no_nul le lt unfolding u field_def by simp
qed

theorem title_before_first_null_witness:
  "NUL \<in> set (take 81 (drop 4180 (content file_brain))) \<and>
   title brain_attrs = ''BRAIN'' \<and>
   title brain_attrs = takeWhile (\<lambda>c. c \<noteq> NUL) (take 81 (drop 4180 (content file_brain))) \<and>
   length (title brain_attrs) \<le> 80"
proof -
  have f: "take 81 (drop 4180 (content file_brain)) = ''BRAIN'' @ replicate 76 NUL"
    by (simp add: file_brain_def unc_file_def unc_bytes_def)
  have a: "file_attrs brain_volume = Some brain_attrs"
    by (simp add: brain_volume_def)
  have b: "nat (addresses brain_attrs ! TITLE) = 4180" "title brain_attrs = ''BRAIN''"
    by (simp_all add: brain_attrs_def TITLE_def)
  show ?thesis
    using title_before_first_null [OF decode_brain] unfolding a
    by (simp add: b f)
qed

text \<open>
  The claim as stated fails: a title field of 81 letters without a null byte decodes to a
  title of 81 characters.
\<close>

theorem title_longer_than_80_counterexample:
  "from_file ex_header ex_slice file_long_title = Inr long_title_volume \<and>
   file_attrs long_title_volume \<noteq> None \<and>
   length (title (the (file_attrs long_title_volume))) = 81 \<and>
   \<not> length (title (the (file_attrs long_title_volume))) \<le> 80"
  by (simp add: decode_long_title) (simp add: long_title_volume_def)

subsection \<open>The pixel count and the pixel array\<close>

lemma prod_list_nat_nonneg:
  "\<forall>d\<in>set ds. (0::int) \<le> d \<Longrightarrow> int (prod_list (map nat ds)) = prod_list ds"
  by (induction ds) simp_all


lemma from_file_content:
  assumes "from_file P Q f = Inr u"
  shows "\<exists>a f8 f9. file_attrs u = Some a \<and> length (addresses a) = 9 \<and> length (dimv u) = 10 \<and>
     calculate_pixel_count (dimc u) (dimv u) = Inr (pixel_count a) \<and>
     content f8 = content f \<and>
     read_pixels f8 (addresses a) (pixel_count a) (dimc u) (dimv u) = Inr (pixels u, f9)"
proof -
  from from_file_InrD [OF assms] obtain addrs f1 t f2 vm mn mx f3 vh h f4 pf f5 dc f6 dv f7 pc
      recs hdr sl f8 px f9
    where s: "read_addresses f = Inr (addrs, f1)" "read_title f1 addrs = Inr (t, f2)"
      "read_maxmin f2 addrs = Inr ((vm, mn, mx), f3)" "read_histogram f3 addrs = Inr ((vh, h), f4)"
      "read_pixel_format f4 addrs = Inr (pf, f5)" "read_dimc f5 addrs = Inr (dc, f6)"
      "read_dimv f6 addrs = Inr (dv, f7)" "calculate_pixel_count dc dv = Inr pc"
      "read_info P Q f7 addrs dv = Inr ((recs, hdr, sl), f8)"
      "read_pixels f8 addrs pc dc dv = Inr (px, f9)"
      and u: "u = \<lparr>header = hdr, dimc = dc, dimv = dv, slice_info = sl, pixels = px,
          file_attrs = Some \<lparr>addresses = addrs, title = t, valid_maxmin = vm, min_val = mn,
            max_val = mx, valid_histogram = vh, histogram = h, pixel_format = pf,
            pixel_count = pc, info = recs\<rparr>\<rparr>"
    by (elim exE conjE) (rule that; assumption)
  have c1: "content f1 = content f" using s(1) by (rule read_addresses_D(2))
  have c2: "content f2 = content f1" using s(2) by (rule read_title_D(1))
  have c3: "content f3 = content f2" using s(3) by (rule read_maxmin_content)
  have c4: "content f4 = content f3" using s(4) by (rule read_histogram_D(1))
  have c5: "content f5 = content f4" using s(5) by (rule read_pixel_format_content)
  have c6: "content f6 = content f5" using s(6) by (rule read_dimc_content)
  have c7: "content f7 = content f6" using s(7) by (rule read_dimv_D(1))
  have c8: "content f8 = content f7" using s(9) by (rule read_info_D(1))
  have "content f8 = content f" using c1 c2 c3 c4 c5 c6 c7 c8 by simp
  moreover have "length addrs = 9" using s(1) by (rule read_addresses_D(1))
  moreover have "length dv = 10" using s(7) by (rule read_dimv_D(2))
  ultimately show ?thesis
    using s(8) s(10) unfolding u by auto
qed

text \<open>
  Claim C1, as amended. For every decoded volume, \<^verbatim>\<open>pixel_count\<close> is the product of the
  first \<^verbatim>\<open>dimc\<close> entries of \<^verbatim>\<open>dimv\<close> (the empty product 1 when \<^verbatim>\<open>dimc\<close> is 0 or less).
  When moreover \<^verbatim>\<open>dimc\<close> is not negative and none of these entries is negative, the pixel
  array has exactly \<^verbatim>\<open>pixel_count\<close> elements and the shape \<^verbatim>\<open>dimv[0:dimc]\<close>, and its
  elements in row-major order (first axis slowest) are the first \<^verbatim>\<open>pixel_count\<close> samples
  of the file from the pixel address on.
\<close>

theorem pixel_count_and_pixels:
  assumes "from_file P Q f = Inr u"
  shows "\<exists>a. file_attrs u = Some a \<and>
     pixel_count a = prod_list (take (nat (dimc u)) (dimv u)) \<and>
     (dimc u = 0 \<longrightarrow> pixel_count a = 1) \<and>
     (0 \<le> dimc u \<and> (\<forall>d\<in>set (take (nat (dimc u)) (dimv u)). 0 \<le> d) \<longrightarrow>
        int (length (data (pixels u))) = pixel_count a \<and>
        map int (shape (pixels u)) = take (nat (dimc u)) (dimv u) \<and>
        dtype (pixels u) = Int16BE \<and>
        data (pixels u) = map (sample_at f (addresses a ! PIXELS)) [0..<nat (pixel_count a)])"
proof -
  from from_file_content [OF assms] obtain a f8 f9 where
    a: "file_attrs u = Some a" and c: "content f8 = content f"
    and pc: "calculate_pixel_count (dimc u) (dimv u) = Inr (pixel_count a)"
    and px: "read_pixels f8 (addresses a) (pixel_count a) (dimc u) (dimv u) = Inr (pixels u, f9)"
    by blast
  from pc have pceq: "pixel_count a = prod_list (take (nat (dimc u)) (dimv u))"
    by (simp add: calculate_pixel_count_Inr_iff)
  have main: "int (length (data (pixels u))) = pixel_count a \<and>
        map int (shape (pixels u)) = take (nat (dimc u)) (dimv u) \<and>
        dtype (pixels u) = Int16BE \<and>
        data (pixels u) = map (sample_at f (addresses a ! PIXELS)) [0..<nat (pixel_count a)]"
    if nn: "0 \<le> dimc u" and dims: "\<forall>d\<in>set (take (nat (dimc u)) (dimv u)). 0 \<le> d"
  proof -
    define ds where "ds = take (nat (dimc u)) (dimv u)"
    have sl: "py_slice_to (dimv u) (dimc u) = ds"
      using nn by (simp add: py_slice_to_def ds_def)
    from px obtain lin where
      ff: "fromfile (f8\<lparr>pos := nat (addresses a ! PIXELS)\<rparr>) (pixel_count a) = Inr lin"
      and rs: "reshape lin ds = Inr (pixels u)"
      unfolding read_pixels_Inr_iff sl by blast
    from dims have dsn: "\<forall>d\<in>set ds. 0 \<le> d" by (simp add: ds_def)
    from rs have len: "length lin = prod_list (map nat ds)"
      and arr: "pixels u = \<lparr>dtype = Int16BE, shape = map nat ds, data = lin\<rparr>"
      unfolding reshape_nonneg [OF dsn] by simp_all
    have pcn: "int (length lin) = pixel_count a"
      using len prod_list_nat_nonneg [OF dsn] pceq by (simp add: ds_def)
    then have nonneg: "0 \<le> pixel_count a" by linarith
    from ff have lin: "lin = map (\<lambda>k. be_sint (take 2 (drop (nat (addresses a ! PIXELS) + 2 * k) (content f))))
        [0..<min (nat (pixel_count a)) ((length (content f) - nat (addresses a ! PIXELS)) div 2)]"
      unfolding fromfile_Inr_iff using nonneg c by simp
    then have "length lin = min (nat (pixel_count a)) ((length (content f) - nat (addresses a ! PIXELS)) div 2)"
      by simp
    with pcn have "min (nat (pixel_count a)) ((length (content f) - nat (addresses a ! PIXELS)) div 2)
        = nat (pixel_count a)"
      by linarith
    with lin have lin': "lin = map (sample_at f (addresses a ! PIXELS)) [0..<nat (pixel_count a)]"
      by (simp add: sample_at_def [abs_def])
    have "map int (map nat ds) = ds"
      using dsn by (induction ds) simp_all
    then show ?thesis
      using pcn lin' unfolding arr by (simp add: ds_def)
  qed
  from main have m: "0 \<le> dimc u \<and> (\<forall>d\<in>set (take (nat (dimc u)) (dimv u)). 0 \<le> d) \<longrightarrow>
        int (length (data (pixels u))) = pixel_count a \<and>
        map int (shape (pixels u)) = take (nat (dimc u)) (dimv u) \<and>
        dtype (pixels u) = Int16BE \<and>
        data (pixels u) = map (sample_at f (addresses a ! PIXELS)) [0..<nat (pixel_count a)]"
    by blast
  have d0: "dimc u = 0 \<longrightarrow> pixel_count a = 1"
    using pceq by simp
  show ?thesis
    by (intro exI [of _ a] conjI) (rule a pceq d0 m)+
qed

theorem pixel_count_and_pixels_witness:
  "0 \<le> dimc brain_volume \<and>
   take (nat (dimc brain_volume)) (dimv brain_volume) = [2, 1, 2] \<and>
   pixel_count brain_attrs = 2 * 1 * 2 \<and>
   int (length (data (pixels brain_volume))) = pixel_count brain_attrs \<and>
   shape (pixels brain_volume) = [2, 1, 2] \<and>
   data (pixels brain_volume) = map (sample_at file_brain 4261) [0..<4]"
proof -
  have a: "file_attrs brain_volume = Some brain_attrs"
    by (simp add: brain_volume_def)
  have b: "dimc brain_volume = 3" "dimv brain_volume = [2, 1, 2, 0, 0, 0, 0, 0, 0, 0]"
    "pixel_count brain_attrs = 4" "addresses brain_attrs ! PIXELS = 4261"
    "shape (pixels brain_volume) = [2, 1, 2]"
    by (simp_all add: brain_volume_def brain_attrs_def PIXELS_def)
  show ?thesis
    using pixel_count_and_pixels [OF decode_brain] unfolding a
    by (simp add: b)
qed

text \<open>
  The claim as stated fails: with one axis of extent -1 the pixel count is -1, all the
  samples up to the end of the file are read, and the array has two elements.
\<close>

theorem pixel_count_negative_counterexample:
  "from_file ex_header ex_slice file_negative_extent = Inr negative_extent_volume \<and>
   pixel_count (the (file_attrs negative_extent_volume)) = - 1 \<and>
   length (data (pixels negative_extent_volume)) = 2 \<and>
   int (length (data (pixels negative_extent_volume)))
     \<noteq> pixel_count (the (file_attrs negative_extent_volume))"
  by (simp add: decode_negative_extent) (simp add: negative_extent_volume_def)

subsection \<open>The slice records\<close>

text \<open>
  Claim C2, as amended. After every successful decode, \<^verbatim>\<open>slice_info\<close> holds exactly
  \<open>max 0 (dimv[0])\<close> records, it is sorted non-decreasing by \<^verbatim>\<open>slice_location\<close>, and it is
  the stable sort of the parsed info records number 1 to \<^verbatim>\<open>dimv[0]\<close>, whatever their order
  in the file.
\<close>

theorem slice_info_sorted_by_location:
  assumes "from_file P Q f = Inr u"
  shows "sorted (map slice_location (slice_info u)) \<and>
     length (slice_info u) = nat (dimv u ! 0) \<and>
     (\<exists>a hs. file_attrs u = Some a \<and>
        map (\<lambda>i. Q (info a ! i)) [1..<nat (dimv u ! 0 + 1)] = map Inr hs \<and>
        slice_info u = sort_key slice_location hs)"
proof -
  from from_file_InrD [OF assms] obtain addrs t vm mn mx vh h pf dc dv f7 pc recs hdr sl f8 px
    where i: "read_info P Q f7 addrs dv = Inr ((recs, hdr, sl), f8)"
      and u: "u = \<lparr>header = hdr, dimc = dc, dimv = dv, slice_info = sl, pixels = px,
          file_attrs = Some \<lparr>addresses = addrs, title = t, valid_maxmin = vm, min_val = mn,
            max_val = mx, valid_histogram = vh, histogram = h, pixel_format = pf,
            pixel_count = pc, info = recs\<rparr>\<rparr>"
    by (elim exE conjE) (rule that; assumption)
  from read_info_D(7) [OF i] obtain hs where
    hs: "map (\<lambda>i. Q (recs ! i)) [1..<nat (dv ! 0 + 1)] = map Inr hs"
    and sl: "sl = sort_key slice_location hs"
    by blast
  from hs have "length hs = length [1..<nat (dv ! 0 + 1)]"
    by (metis length_map)
  then have len: "length sl = nat (dv ! 0)"
    unfolding sl by simp
  have "sorted (map slice_location sl)"
    unfolding sl by (rule sorted_sort_key)
  with len hs sl show ?thesis
    unfolding u by auto
qed

theorem slice_info_sorted_by_location_witness:
  "info brain_attrs = [''hdr'', ''b2'', ''a1''] \<and>
   map slice_location (slice_info brain_volume) = [97, 98] \<and>
   sorted (map slice_location (slice_info brain_volume)) \<and>
   length (slice_info brain_volume) = 2"
proof -
  have b: "dimv brain_volume ! 0 = 2" "slice_info brain_volume = [slice_a1, slice_b2]"
    by (simp_all add: brain_volume_def)
  show ?thesis
    using slice_info_sorted_by_location [OF decode_brain]
    by (simp add: b brain_attrs_def)
qed

text \<open>
  The claim as stated fails: when \<^verbatim>\<open>dimv[0]\<close> is negative the loop over
  \<^verbatim>\<open>range(1, dimv[0] + 1)\<close> is empty and \<^verbatim>\<open>slice_info\<close> has no record, not \<^verbatim>\<open>dimv[0]\<close> many.
\<close>

theorem slice_count_negative_counterexample:
  "from_file ex_header ex_slice file_no_axes = Inr no_axes_volume \<and>
   dimv no_axes_volume ! 0 = - 1 \<and>
   length (slice_info no_axes_volume) = 0 \<and>
   int (length (slice_info no_axes_volume)) \<noteq> dimv no_axes_volume ! 0"
  by (simp add: decode_no_axes) (simp add: no_axes_volume_def)

subsection \<open>Too few info records\<close>






subsection \<open>A truncated pixel stream\<close>









subsection \<open>Copying blocks of rows\<close>



lemma strip_ones_short: "length xs \<le> k \<Longrightarrow> strip_ones k xs = xs"
  by (cases xs) simp_all

lemma strip_ones_sub: "x \<in> set xs \<Longrightarrow> x = 1 \<or> x \<in> set (strip_ones k xs)"
  by (induction xs) auto

lemma padded_all_ones:
  assumes "list_all2 (\<lambda>s d. s = d \<or> s = 1) (replicate m 1 @ shp) ds" "\<forall>d\<in>set ds. d = (1::nat)"
  shows "\<forall>x\<in>set shp. x = 1"
proof
  fix x
  assume "x \<in> set shp"
  then have "x \<in> set (replicate m 1 @ shp)" by simp
  then obtain i where i: "i < length (replicate m 1 @ shp)" "(replicate m 1 @ shp) ! i = x"
    by (meson in_set_conv_nth)
  from assms(1) i have "i < length ds" and "x = ds ! i \<or> x = 1"
    by (auto simp: list_all2_conv_all_nth)
  with assms(2) show "x = 1"
    by (metis nth_mem)
qed


lemma assign_block_D:
  assumes "assign_block dst src = Inr blk"
  shows "length (strip_ones (length dst) (shape src)) \<le> length dst"
    and "list_all2 (\<lambda>s d. s = d \<or> s = 1)
           (replicate (length dst - length (strip_ones (length dst) (shape src))) 1
            @ strip_ones (length dst) (shape src)) dst"
    and "blk = bcast_data (replicate (length dst - length (strip_ones (length dst) (shape src))) 1
            @ strip_ones (length dst) (shape src)) dst (data src)"
  using assms by (auto simp: assign_block_def Let_def split: if_splits)

lemma strip_ones_long:
  assumes "k < length (d # ds)" "length (strip_ones k (d # ds)) \<le> k"
  shows "d = 1" and "strip_ones k (d # ds) = strip_ones k ds"
  using assms by (auto split: if_splits)

lemma assign_block_more_axes:
  assumes ok: "assign_block [k, rest ! 0, rest ! 1] src = Inr blk"
    and shp: "shape src = k # rest" and len: "2 < length rest"
  shows "k = 1 \<and> (\<forall>x\<in>set rest. x = 1)"
proof -
  note strip_ones.simps [simp del]
  from len obtain a b c r where rest: "rest = a # b # c # r"
    by (cases rest; cases "tl rest"; cases "tl (tl rest)") auto
  define s where "s = strip_ones 3 (k # a # b # c # r)"
  have dst: "[k, rest ! 0, rest ! 1] = [k, a, b]"
    by (simp add: rest)
  have le: "length s \<le> 3"
    using assign_block_D(1) [OF ok] unfolding shp rest s_def by (simp add: numeral_3_eq_3)
  have all2: "list_all2 (\<lambda>s d. s = d \<or> s = 1) (replicate (3 - length s) 1 @ s) [k, a, b]"
    using assign_block_D(2) [OF ok] unfolding shp dst unfolding rest s_def
    by (simp add: numeral_3_eq_3)
  have k: "k = 1" and s1: "s = strip_ones 3 (a # b # c # r)"
    using strip_ones_long [of 3 k "a # b # c # r"] le unfolding s_def by simp_all
  have ab: "a = 1 \<and> b = 1"
  proof (cases r)
    case Nil
    then have "s = [a, b, c]"
      unfolding s1 by (simp add: strip_ones_short)
    with all2 k show ?thesis by auto
  next
    case (Cons e r')
    have a: "a = 1" and s2: "s = strip_ones 3 (b # c # e # r')"
      using strip_ones_long [of 3 a "b # c # e # r'"] le unfolding s1 Cons by simp_all
    show ?thesis
    proof (cases r')
      case Nil
      then have "s = [b, c, e]"
        unfolding s2 by (simp add: strip_ones_short)
      with all2 k a show ?thesis by auto
    next
      case (Cons e' r'')
      have "b = 1"
        using strip_ones_long(1) [of 3 b "c # e # e' # r''"] le unfolding s2 Cons by simp
      with a show ?thesis by simp
    qed
  qed
  with k have "\<forall>d\<in>set [k, a, b]. d = 1" by simp
  with all2 have "\<forall>x\<in>set s. x = 1" by (rule padded_all_ones)
  then have "\<forall>x\<in>set (k # a # b # c # r). x = 1"
    using strip_ones_sub [of _ "k # a # b # c # r" 3] unfolding s_def by blast
  with k show ?thesis by (simp add: rest)
qed




lemma take_rows_block:
  assumes "shape px = s0 # rest" "2 \<le> length rest" "per * i + per \<le> s0"
  shows "take_rows px (per * i) (per * i + per) =
     Inr \<lparr>dtype = dtype px, shape = per # rest, data = rows px (per * i) (per * i + per)\<rparr>"
proof -
  have "min (per * i) s0 = per * i" "min (per * i + per) s0 = per * i + per"
    using assms(3) by simp_all
  then show ?thesis
    using assms(1,2) by (simp add: take_rows_def rows_def Let_def)
qed




lemma copy_loop_more_axes:
  assumes "shape px = s0 # rest" "2 < length rest" "per * j + per \<le> s0"
    and "copy_loop px per [per, rest ! 0, rest ! 1] (j # js) acc = Inr blocks"
  shows "per = 1 \<and> (\<forall>x\<in>set rest. x = 1)"
proof -
  let ?src = "\<lparr>dtype = dtype px, shape = per # rest, data = rows px (per * j) (per * j + per)\<rparr>"
  have tr: "take_rows px (per * j) (per * j + per) = Inr ?src"
    using assms(1) _ assms(3) by (rule take_rows_block) (use assms(2) in simp)
  from assms(4) obtain blk where "assign_block [per, rest ! 0, rest ! 1] ?src = Inr blk"
    unfolding copy_loop.simps tr by (auto simp: ebind_Inr_iff)
  then show ?thesis
    by (rule assign_block_more_axes) (use assms(2) in simp_all)
qed

subsection \<open>The two partitions\<close>

lemma int_truediv_nat:
  "0 < n \<Longrightarrow> int_truediv (int s0) (int n) = Inr (int (s0 div n))"
  by (cases "s0 = 0") (simp_all add: int_truediv_def zdiv_int)




lemma split_volumes_InrD:
  assumes "split_volumes u nv = Inr vs"
  shows "\<exists>s0 rest blocks. shape (pixels u) = s0 # rest \<and> 2 \<le> length rest \<and> 0 < nv \<and>
     copy_loop (pixels u) (s0 div nat nv) [s0 div nat nv, rest ! 0, rest ! 1] [0..<nat nv] []
       = Inr blocks \<and>
     vs = build_volumes u (nat nv) [s0 div nat nv, rest ! 0, rest ! 1] blocks [0..<nat nv]"
proof -
  from assms obtain s0 q s1 s2 full blocks where
    s0: "shape_at (pixels u) 0 = Inr s0" and q: "int_truediv (int s0) nv = Inr q"
    and s1: "shape_at (pixels u) 1 = Inr s1" and s2: "shape_at (pixels u) 2 = Inr s2"
    and al: "ndarray_alloc [nv, q, int s1, int s2] = Inr full"
    and cl: "copy_loop (pixels u) (nat q) (tl full) [0..<nat nv] [] = Inr blocks"
    and vs: "vs = build_volumes u (nat nv) (tl full) blocks [0..<nat nv]"
    unfolding split_volumes_def Let_def by (auto simp: ebind_Inr_iff)
  from s0 s2 obtain rest where shp: "shape (pixels u) = s0 # rest" and len: "2 \<le> length rest"
    by (cases "shape (pixels u)") (auto simp: shape_at_def py_index_def split: if_splits)
  from s1 s2 len have s12: "s1 = rest ! 0" "s2 = rest ! 1"
    by (auto simp: shape_at_def py_index_def shp split: if_splits)
  from q al have nv: "0 < nv"
    by (auto simp: int_truediv_def ndarray_alloc_def split: if_splits)
  then have "int_truediv (int s0) nv = Inr (int (s0 div nat nv))"
    using int_truediv_nat [of "nat nv" s0] by simp
  with q have qq: "nat q = s0 div nat nv" by simp
  from al have full: "tl full = [nat q, s1, s2]"
    by (auto simp: ndarray_alloc_def split: if_splits)
  show ?thesis
    using shp len nv cl vs unfolding full qq s12 by blast
qed

lemma split_echoes_InrD:
  assumes "split_echoes u = Inr vs"
  shows "\<exists>s0 rest blocks. shape (pixels u) = s0 # rest \<and> 2 \<le> length rest \<and> 0 < num_echoes u \<and>
     copy_loop (pixels u) (s0 div num_echoes u) [s0 div num_echoes u, rest ! 0, rest ! 1]
       [0..<num_echoes u] [] = Inr blocks \<and>
     build_echoes u [s0 div num_echoes u, rest ! 0, rest ! 1] blocks [0..<num_echoes u] = Inr vs"
proof -
  from assms obtain s0 q s1 s2 full blocks where
    s0: "shape_at (pixels u) 0 = Inr s0" and q: "int_truediv (int s0) (int (num_echoes u)) = Inr q"
    and s1: "shape_at (pixels u) 1 = Inr s1" and s2: "shape_at (pixels u) 2 = Inr s2"
    and al: "ndarray_alloc [int (num_echoes u), q, int s1, int s2] = Inr full"
    and cl: "copy_loop (pixels u) (nat q) (tl full) [0..<num_echoes u] [] = Inr blocks"
    and vs: "build_echoes u (tl full) blocks [0..<num_echoes u] = Inr vs"
    unfolding split_echoes_def Let_def by (auto simp: ebind_Inr_iff)
  from s0 s2 obtain rest where shp: "shape (pixels u) = s0 # rest" and len: "2 \<le> length rest"
    by (cases "shape (pixels u)") (auto simp: shape_at_def py_index_def split: if_splits)
  from s1 s2 len have s12: "s1 = rest ! 0" "s2 = rest ! 1"
    by (auto simp: shape_at_def py_index_def shp split: if_splits)
  from q have ne: "0 < num_echoes u"
    by (auto simp: int_truediv_def split: if_splits)
  then have "int_truediv (int s0) (int (num_echoes u)) = Inr (int (s0 div num_echoes u))"
    by (rule int_truediv_nat)
  with q have qq: "nat q = s0 div num_echoes u" by simp
  from al have full: "tl full = [nat q, s1, s2]"
    by (auto simp: ndarray_alloc_def split: if_splits)
  show ?thesis
    using shp len ne cl vs unfolding full qq s12 by blast
qed















lemma brain_echoes:
  "dicom_header slice_a1 ''Echo Number'' = Some (PyInt 1)"
  "dicom_header slice_b2 ''Echo Number'' = Some (PyInt 2)"
  "echo_or_zero slice_a1 = PyInt 1" "echo_or_zero slice_b2 = PyInt 2"
  by (simp_all add: slice_a1_def slice_b2_def echo_or_zero_def)



subsection \<open>The number of axes the partitions need\<close>

lemma upt_pos_Cons: "0 < n \<Longrightarrow> [0..<n] = 0 # [1..<n]"
  by (simp add: upt_conv_Cons)

lemma split_volumes_axes:
  assumes "split_volumes u nv = Inr vs"
  shows "3 \<le> length (shape (pixels u))"
    and "3 < length (shape (pixels u)) \<Longrightarrow> \<forall>d\<in>set (tl (shape (pixels u))). d = 1"
proof -
  from split_volumes_InrD [OF assms] obtain s0 rest blocks where
    shp: "shape (pixels u) = s0 # rest" and len: "2 \<le> length rest" and nv: "0 < nv"
    and cl: "copy_loop (pixels u) (s0 div nat nv) [s0 div nat nv, rest ! 0, rest ! 1]
               [0..<nat nv] [] = Inr blocks"
    by blast
  show "3 \<le> length (shape (pixels u))" using len by (simp add: shp)
  assume "3 < length (shape (pixels u))"
  then have more: "2 < length rest" by (simp add: shp)
  have up: "[0..<nat nv] = 0 # [1..<nat nv]"
    using nv by (intro upt_pos_Cons) simp
  have "s0 div nat nv * 0 + s0 div nat nv \<le> s0"
    by (simp add: div_le_dividend)
  from copy_loop_more_axes [OF shp more this cl [unfolded up]]
  show "\<forall>d\<in>set (tl (shape (pixels u))). d = 1"
    by (simp add: shp)
qed

lemma split_echoes_axes:
  assumes "split_echoes u = Inr vs"
  shows "3 \<le> length (shape (pixels u))"
    and "3 < length (shape (pixels u)) \<Longrightarrow> \<forall>d\<in>set (tl (shape (pixels u))). d = 1"
proof -
  from split_echoes_InrD [OF assms] obtain s0 rest blocks where
    shp: "shape (pixels u) = s0 # rest" and len: "2 \<le> length rest" and ne: "0 < num_echoes u"
    and cl: "copy_loop (pixels u) (s0 div num_echoes u) [s0 div num_echoes u, rest ! 0, rest ! 1]
               [0..<num_echoes u] [] = Inr blocks"
    by blast
  show "3 \<le> length (shape (pixels u))" using len by (simp add: shp)
  assume "3 < length (shape (pixels u))"
  then have more: "2 < length rest" by (simp add: shp)
  have up: "[0..<num_echoes u] = 0 # [1..<num_echoes u]"
    using ne by (rule upt_pos_Cons)
  have "s0 div num_echoes u * 0 + s0 div num_echoes u \<le> s0"
    by (simp add: div_le_dividend)
  from copy_loop_more_axes [OF shp more this cl [unfolded up]]
  show "\<forall>d\<in>set (tl (shape (pixels u))). d = 1"
    by (simp add: shp)
qed

text \<open>
  Claim C9, as amended. \<^verbatim>\<open>split_echoes()\<close> and \<^verbatim>\<open>split_volumes(n)\<close> fail instead of
  returning partitions for every volume whose pixel array has fewer than three axes, and
  for every volume whose pixel array has more than three axes unless all the axes after
  the first have extent 1.
\<close>

theorem split_needs_three_axes:
  assumes "length (shape (pixels u)) < 3 \<or>
     (3 < length (shape (pixels u)) \<and> (\<exists>d\<in>set (tl (shape (pixels u))). d \<noteq> 1))"
  shows "(\<exists>e. split_echoes u = Inl e) \<and> (\<exists>e. split_volumes u nv = Inl e)"
proof -
  have "split_echoes u \<noteq> Inr vs" for vs
    using split_echoes_axes [of u vs] assms by fastforce
  moreover have "split_volumes u nv \<noteq> Inr vs" for vs
    using split_volumes_axes [of u nv vs] assms by fastforce
  ultimately show ?thesis
    by (meson sum.exhaust)
qed

theorem split_needs_three_axes_witness:
  "length (shape (pixels flat_volume)) = 2 \<and>
   split_echoes flat_volume = Inl IndexError \<and> split_volumes flat_volume 2 = Inl IndexError"
proof -
  have n: "num_echoes flat_volume = 2"
    by (simp add: num_echoes_def flat_volume_def brain_echoes)
  have "length (shape (pixels flat_volume)) < 3 \<or>
     (3 < length (shape (pixels flat_volume)) \<and> (\<exists>d\<in>set (tl (shape (pixels flat_volume))). d \<noteq> 1))"
    by (simp add: flat_volume_def)
  from split_needs_three_axes [OF this, of 2] show ?thesis
    unfolding split_echoes_def split_volumes_def n
    by (simp add: flat_volume_def shape_at_def py_index_def int_truediv_def)
qed

lemma decode_unit_axes: "from_file ex_header ex_slice file_unit_axes = Inr unit_axes_volume"
proof -
  let ?tail = "[NUL, CHR 0x07] @ ''h'' @ [NUL] @ ''a1''"
  let ?c = "unc_bytes 4 [1, 1, 1, 1, 0, 0, 0, 0, 0, 0] (replicate 81 NUL) 4261 4263 ?tail"
  have t: "takeWhile (\<lambda>c. c \<noteq> NUL) (replicate 81 NUL) = []"
    by (simp add: numeral_eq_Suc)
  have q: "ex_slice ''a1'' = Inr slice_a1"
    by (simp add: ex_slice_def slice_a1_def)
  have r: "info_records (drop 2 ?tail) = [''h'', ''a1'']"
    by (simp add: info_records_def NUL_def)
  have u: "[Suc 0..<2] = [Suc 0]"
    by code_simp
  have i: "read_info ex_header ex_slice \<lparr>content = ?c, pos = 4180\<rparr>
      [36, 36, 4180, 36, 4136, 4140, int 4261, int (4261 + 2), 0] [1, 1, 1, 1, 0, 0, 0, 0, 0, 0]
    = Inr (([''h'', ''a1''], ''h'', [slice_a1]), \<lparr>content = ?c, pos = 4261 + length ?tail\<rparr>)"
    apply (subst ex_read_info)
        apply (simp_all add: r [simplified] py_index_def ex_header_def u q Let_def)
    apply (simp_all add: NUL_def)
    done
  have p: "read_pixels \<lparr>content = ?c, pos = 4261 + length ?tail\<rparr>
      [36, 36, 4180, 36, 4136, 4140, int (4261 + 0), int 4263, 0] 1 4 [1, 1, 1, 1, 0, 0, 0, 0, 0, 0]
    = Inr (\<lparr>dtype = Int16BE, shape = [1, 1, 1, 1], data = [7]\<rparr>,
           \<lparr>content = ?c, pos = 4261 + 0 + 2 * 1\<rparr>)"
    by (subst ex_read_pixels)
       (simp_all add: NUL_def be_sint_two reshape_def py_slice_to_def)
  have c: "calculate_pixel_count 4 [1, 1, 1, 1, 0, 0, 0, 0, 0, 0] = Inr 1"
    by (simp add: calculate_pixel_count_Inr_iff)
  show ?thesis
    unfolding file_unit_axes_def unit_axes_volume_def
    apply (subst ex_from_file)
    using i p c
    apply (simp_all add: t list_all_iff)
     apply (simp_all add: s32_def NUL_def)
    done
qed

lemma num_echoes_unit: "num_echoes unit_axes_volume = 1"
  by (simp add: num_echoes_def unit_axes_volume_def brain_echoes)

lemma assign_unit:
  "assign_block [Suc 0, Suc 0, Suc 0] \<lparr>dtype = t, shape = [Suc 0, Suc 0, Suc 0, Suc 0], data = [x]\<rparr>
     = Inr [x]"
  by (simp add: assign_block_def numeral_3_eq_3 upt_conv_Cons)

text \<open>
  The claim as stated fails: a decoded volume of four axes of extent 1 is partitioned by
  both operations, since an assignment broadcasts a source with leading axes of extent 1.
\<close>

theorem split_four_unit_axes_counterexample:
  "from_file ex_header ex_slice file_unit_axes = Inr unit_axes_volume \<and>
   length (shape (pixels unit_axes_volume)) = 4 \<and>
   split_echoes unit_axes_volume = Inr [unit_axes_part] \<and>
   split_volumes unit_axes_volume 1 = Inr [unit_axes_part]"
proof -
  have s: "shape (pixels unit_axes_volume) = [1, 1, 1, 1]"
    "data (pixels unit_axes_volume) = [7]"
    by (simp_all add: unit_axes_volume_def)
  have tr: "take_rows (pixels unit_axes_volume) 0 (Suc 0)
      = Inr \<lparr>dtype = Int16BE, shape = [Suc 0, Suc 0, Suc 0, Suc 0], data = [7]\<rparr>"
    by (simp add: take_rows_def unit_axes_volume_def)
  have e: "split_echoes unit_axes_volume = Inr [unit_axes_part]"
    unfolding split_echoes_def num_echoes_unit
    by (simp add: shape_at_def py_index_def s int_truediv_def ndarray_alloc_def tr assign_unit
        block_view_def unit_axes_part_def)
       (simp add: unit_axes_volume_def brain_echoes)
  have v: "split_volumes unit_axes_volume 1 = Inr [unit_axes_part]"
    unfolding split_volumes_def
    by (simp add: shape_at_def py_index_def s int_truediv_def ndarray_alloc_def tr assign_unit
        block_view_def unit_axes_part_def)
       (simp add: unit_axes_volume_def)
  show ?thesis
    using decode_unit_axes e v by (simp add: s)
qed

end
